theory Spec2Isabelle
  imports Complex_Main "HOL-Library.Word"
begin

section \<open>SolarSystem3D: a shallow embedding of \<^verbatim>\<open>src/main.cpp\<close>\<close>

text \<open>
  The program is one C++ translation unit. It generates a UV sphere mesh
  (\<^verbatim>\<open>createSphere\<close>), scatters an asteroid belt, and then, once per frame, samples the
  keyboard, recomputes every orbit angle from the frame time, resolves the positions of
  Earth and Moon and draws every body. Mouse and scroll callbacks drive an orbit camera
  (follow mode) or the free camera.

  Conventions of the embedding:
  \<^item> \<^verbatim>\<open>unsigned int\<close> is \<open>32 word\<close>: \<open>+\<close>, \<open>-\<close> and \<open>*\<close> wrap, \<open>unat\<close> reads the value.
  \<^item> In the mesh, the asteroid belt and the orbits, \<^verbatim>\<open>float\<close> and \<^verbatim>\<open>double\<close> are \<open>real\<close>:
    arithmetic is exact; rounding, infinities and NaN are outside the model. In
    particular a division by zero, which yields an infinity or NaN in the program, is \<open>0\<close>
    in HOL; no statement below depends on the value of such a quotient.
  \<^item> In the input callbacks, whose clamps are comparisons, \<^verbatim>\<open>float\<close> and \<^verbatim>\<open>double\<close> are
    \<open>ieee\<close>: a number, an infinity or NaN, with the conversion from \<^verbatim>\<open>double\<close> to \<^verbatim>\<open>float\<close>
    written out. Rounding is still outside the model.
  \<^item> \<^verbatim>\<open>std::vector\<close> is a list, \<^verbatim>\<open>push_back\<close> appends at the end.
  \<^item> The global variables are the fields of two records that the code takes and returns:
    \<open>scene\<close> for the bodies and \<open>controls\<close> for the input and camera state.
  \<^item> A loop whose counter can wrap around is a \<^theory_text>\<open>partial_function\<close> in the option
    monad: \<open>None\<close> means that the loop never exits.
\<close>

subsection \<open>Sphere mesh generation\<close>

type_synonym u32 = "32 word"

definition UINT_MAX :: u32 where
  "UINT_MAX = 0xFFFFFFFF"

text \<open>\<^verbatim>\<open>#define M_PI 3.14159265358979323846\<close>\<close>

definition M_PI :: real where
  "M_PI = 3.14159265358979323846"

text \<open>
  The body of the inner vertex loop of \<^verbatim>\<open>createSphere\<close>: the eight floats pushed for
  row \<open>i\<close> and column \<open>j\<close> (position, normal, texture coordinates).
\<close>

definition sphere_vertex :: "real \<Rightarrow> u32 \<Rightarrow> u32 \<Rightarrow> u32 \<Rightarrow> u32 \<Rightarrow> real list" where
  "sphere_vertex radius sectorCount stackCount i j =
     (let lengthInv = 1 / radius;
          sectorStep = 2 * M_PI / real (unat sectorCount);
          stackStep = M_PI / real (unat stackCount);
          stackAngle = M_PI / 2 - real (unat i) * stackStep;
          xy = radius * cos stackAngle;
          y = radius * sin stackAngle;
          sectorAngle = real (unat j) * sectorStep;
          x = xy * cos sectorAngle;
          z = xy * sin sectorAngle;
          nx = x * lengthInv;
          ny = y * lengthInv;
          nz = z * lengthInv;
          s = 1 - real (unat j) / real (unat sectorCount);
          t = 1 - real (unat i) / real (unat stackCount)
      in [x, y, z, nx, ny, nz, s, t])"

text \<open>
  \<^verbatim>\<open>for (unsigned int j = 0; j <= sectorCount; ++j)\<close>: the counter wraps from
  \<open>UINT_MAX\<close> to \<open>0\<close>, so the loop never exits when \<open>sectorCount = UINT_MAX\<close>.
\<close>

partial_function (option) vertex_cols ::
  "real \<Rightarrow> u32 \<Rightarrow> u32 \<Rightarrow> u32 \<Rightarrow> u32 \<Rightarrow> real list \<Rightarrow> real list option" where
  "vertex_cols radius sectorCount stackCount i j vertices =
     (if j \<le> sectorCount
      then vertex_cols radius sectorCount stackCount i (j + 1)
             (vertices @ sphere_vertex radius sectorCount stackCount i j)
      else Some vertices)"

text \<open>\<^verbatim>\<open>for (unsigned int i = 0; i <= stackCount; ++i)\<close>, the outer vertex loop.\<close>

partial_function (option) vertex_rows ::
  "real \<Rightarrow> u32 \<Rightarrow> u32 \<Rightarrow> u32 \<Rightarrow> real list \<Rightarrow> real list option" where
  "vertex_rows radius sectorCount stackCount i vertices =
     (if i \<le> stackCount
      then Option.bind (vertex_cols radius sectorCount stackCount i 0 vertices)
             (\<lambda>vertices'. vertex_rows radius sectorCount stackCount (i + 1) vertices')
      else Some vertices)"

text \<open>
  \<^verbatim>\<open>for (unsigned int j = 0; j < sectorCount; ++j, ++k1, ++k2)\<close>: one sector quad per
  iteration, its first triangle skipped in the first row and its second in the last.
\<close>

function index_cols ::
  "u32 \<Rightarrow> u32 \<Rightarrow> u32 \<Rightarrow> u32 \<Rightarrow> u32 \<Rightarrow> u32 \<Rightarrow> u32 list \<Rightarrow> u32 list" where
  "index_cols sectorCount stackCount i j k1 k2 indices =
     (if j < sectorCount
      then (let indices1 = (if i \<noteq> 0 then indices @ [k1, k2, k1 + 1] else indices);
                indices2 = (if i \<noteq> stackCount - 1 then indices1 @ [k1 + 1, k2, k2 + 1]
                            else indices1)
            in index_cols sectorCount stackCount i (j + 1) (k1 + 1) (k2 + 1) indices2)
      else indices)"
  by pat_completeness auto
termination
proof (relation "measure (\<lambda>(sectorCount, stackCount, i, j, k1, k2, indices).
                     unat sectorCount - unat j)")
  show "wf (measure (\<lambda>(sectorCount :: u32, stackCount :: u32, i :: u32, j :: u32, k1 :: u32,
                        k2 :: u32, indices :: u32 list). unat sectorCount - unat j))"
    by simp
next
  fix sectorCount stackCount i j k1 k2 :: u32 and indices x xa :: "u32 list"
  assume "j < sectorCount"
  then have lt: "unat j < unat sectorCount"
    by (simp add: word_less_nat_alt)
  have "unat sectorCount < 2 ^ 32"
    using unsigned_less [of sectorCount] by simp
  with lt have "unat j + unat (1 :: u32) < 2 ^ LENGTH(32)"
    by simp
  then have "unat (j + 1) = unat j + unat (1 :: u32)"
    by (simp only: unat_add_lem [THEN iffD1])
  with lt show "((sectorCount, stackCount, i, j + 1, k1 + 1, k2 + 1, xa),
                 (sectorCount, stackCount, i, j, k1, k2, indices))
                \<in> measure (\<lambda>(sectorCount, stackCount, i, j, k1, k2, indices).
                     unat sectorCount - unat j)"
    by simp
qed

declare index_cols.simps [simp del]

text \<open>\<^verbatim>\<open>for (unsigned int i = 0; i < stackCount; ++i)\<close>, the outer index loop.\<close>

function index_rows :: "u32 \<Rightarrow> u32 \<Rightarrow> u32 \<Rightarrow> u32 list \<Rightarrow> u32 list" where
  "index_rows sectorCount stackCount i indices =
     (if i < stackCount
      then (let k1 = i * (sectorCount + 1);
                k2 = k1 + sectorCount + 1
            in index_rows sectorCount stackCount (i + 1)
                 (index_cols sectorCount stackCount i 0 k1 k2 indices))
      else indices)"
  by pat_completeness auto
termination
proof (relation "measure (\<lambda>(sectorCount, stackCount, i, indices). unat stackCount - unat i)")
  show "wf (measure (\<lambda>(sectorCount :: u32, stackCount :: u32, i :: u32, indices :: u32 list).
                        unat stackCount - unat i))"
    by simp
next
  fix sectorCount stackCount i x xa :: u32 and indices :: "u32 list"
  assume "i < stackCount"
  then have lt: "unat i < unat stackCount"
    by (simp add: word_less_nat_alt)
  have "unat stackCount < 2 ^ 32"
    using unsigned_less [of stackCount] by simp
  with lt have "unat i + unat (1 :: u32) < 2 ^ LENGTH(32)"
    by simp
  then have "unat (i + 1) = unat i + unat (1 :: u32)"
    by (simp only: unat_add_lem [THEN iffD1])
  with lt show "((sectorCount, stackCount, i + 1,
                  index_cols sectorCount stackCount i 0 x xa indices),
                 (sectorCount, stackCount, i, indices))
                \<in> measure (\<lambda>(sectorCount, stackCount, i, indices). unat stackCount - unat i)"
    by simp
qed

declare index_rows.simps [simp del]

text \<open>
  \<^verbatim>\<open>void createSphere(vertices, indices, radius, sectorCount, stackCount)\<close>. The two
  vectors are passed by reference and written in place; the model returns them. The
  function has no \<^verbatim>\<open>throw\<close> and no early \<^verbatim>\<open>return\<close>: \<open>Some\<close> is its only normal exit.
\<close>

definition createSphere ::
  "real list \<Rightarrow> u32 list \<Rightarrow> real \<Rightarrow> u32 \<Rightarrow> u32 \<Rightarrow> (real list \<times> u32 list) option" where
  "createSphere vertices indices radius sectorCount stackCount =
     Option.bind (vertex_rows radius sectorCount stackCount 0 vertices)
       (\<lambda>vertices'. Some (vertices', index_rows sectorCount stackCount 0 indices))"

subsection \<open>Asteroid belt\<close>

type_synonym vec3 = "real \<times> real \<times> real"

text \<open>\<^verbatim>\<open>glm::two_pi<float>()\<close>\<close>

definition two_pi :: real where
  "two_pi = 2 * pi"

text \<open>
  The loop of \<^verbatim>\<open>main\<close> that fills \<^verbatim>\<open>asteroidPositions\<close> and \<^verbatim>\<open>asteroidScales\<close>. The C
  library's generator is a parameter: \<open>rand\<close> maps the hidden generator state to the
  value \<^verbatim>\<open>rand()\<close> returns and the next state, and \<open>RAND_MAX\<close> is the library's macro.
  The three calls of one iteration happen in the order of the three statements.
\<close>

function asteroid_loop ::
  "('g \<Rightarrow> int \<times> 'g) \<Rightarrow> int \<Rightarrow> int \<Rightarrow> int \<Rightarrow> 'g \<Rightarrow> vec3 list \<Rightarrow> real list
     \<Rightarrow> vec3 list \<times> real list \<times> 'g" where
  "asteroid_loop rand RAND_MAX asteroidCount i g asteroidPositions asteroidScales =
     (if i < asteroidCount
      then (let angle = (real_of_int i / real_of_int asteroidCount) * two_pi;
                r1 = rand g;
                radius = 5.5 + real_of_int (fst r1) / real_of_int RAND_MAX * 2.5;
                r2 = rand (snd r1);
                height = (real_of_int (fst r2) / real_of_int RAND_MAX - 0.5) * 0.25;
                asteroidPositions' =
                  asteroidPositions @ [(cos angle * radius, height, sin angle * radius)];
                r3 = rand (snd r2);
                scale = 0.02 + real_of_int (fst r3) / real_of_int RAND_MAX * 0.0175
            in asteroid_loop rand RAND_MAX asteroidCount (i + 1) (snd r3)
                 asteroidPositions' (asteroidScales @ [scale]))
      else (asteroidPositions, asteroidScales, g))"
  by pat_completeness auto
termination
  by (relation "measure (\<lambda>(rand, RAND_MAX, asteroidCount, i, g, asteroidPositions,
                           asteroidScales). nat (asteroidCount - i))") auto

declare asteroid_loop.simps [simp del]

text \<open>\<^verbatim>\<open>const int asteroidCount = 200;\<close> and the loop started at \<open>i = 0\<close> on empty vectors.\<close>

definition asteroidCount :: int where
  "asteroidCount = 200"

definition asteroid_belt :: "('g \<Rightarrow> int \<times> 'g) \<Rightarrow> int \<Rightarrow> 'g \<Rightarrow> vec3 list \<times> real list \<times> 'g" where
  "asteroid_belt rand RAND_MAX g = asteroid_loop rand RAND_MAX asteroidCount 0 g [] []"

subsection \<open>Orbits\<close>

text \<open>\<^verbatim>\<open>struct Planet\<close>; the field \<^verbatim>\<open>size\<close> is \<open>size'\<close> here.\<close>

record Planet =
  orbitRadius :: real
  orbitSpeed :: real
  selfRotateSpeed :: real
  size' :: real
  color :: vec3
  texture :: u32
  orbitAngle :: real

text \<open>
  The roster \<^verbatim>\<open>planets = { ... }\<close> of \<^verbatim>\<open>main\<close>: Sun, Mercury, Venus, Earth, Moon, Mars,
  Jupiter, Saturn, Uranus, Neptune. \<open>loadTexture\<close> stands for the texture handles the
  graphics library hands out.
\<close>

definition planets_init :: "(string \<Rightarrow> u32) \<Rightarrow> Planet list" where
  "planets_init loadTexture =
     [\<lparr>orbitRadius = 0, orbitSpeed = 0, selfRotateSpeed = 0.5, size' = 0.625,
        color = (1, 0.9, 0.3), texture = loadTexture ''resources/textures/sun.jpg'',
        orbitAngle = 0\<rparr>,
      \<lparr>orbitRadius = 0.975, orbitSpeed = 4.15, selfRotateSpeed = 1, size' = 0.045,
        color = (0.7, 0.7, 0.7), texture = loadTexture ''resources/textures/mercury.jpg'',
        orbitAngle = 0\<rparr>,
      \<lparr>orbitRadius = 1.8, orbitSpeed = 1.62, selfRotateSpeed = 1.2, size' = 0.1125,
        color = (1, 0.8, 0.5), texture = loadTexture ''resources/textures/venus.jpg'',
        orbitAngle = 0\<rparr>,
      \<lparr>orbitRadius = 2.5, orbitSpeed = 1, selfRotateSpeed = 1.5, size' = 0.125,
        color = (0.5, 0.7, 1), texture = loadTexture ''resources/textures/earth.jpg'',
        orbitAngle = 0\<rparr>,
      \<lparr>orbitRadius = 0.2, orbitSpeed = 12, selfRotateSpeed = 2, size' = 0.0325,
        color = (0.8, 0.8, 0.8), texture = loadTexture ''resources/textures/moon.jpg'',
        orbitAngle = 0\<rparr>,
      \<lparr>orbitRadius = 3.8, orbitSpeed = 0.53, selfRotateSpeed = 1, size' = 0.0675,
        color = (1, 0.5, 0.3), texture = loadTexture ''resources/textures/mars.jpg'',
        orbitAngle = 0\<rparr>,
      \<lparr>orbitRadius = 13, orbitSpeed = 0.08, selfRotateSpeed = 0.8, size' = 0.25,
        color = (1, 0.8, 0.5), texture = loadTexture ''resources/textures/jupiter.jpg'',
        orbitAngle = 0\<rparr>,
      \<lparr>orbitRadius = 23.95, orbitSpeed = 0.03, selfRotateSpeed = 0.7, size' = 0.2125,
        color = (1, 0.9, 0.6), texture = loadTexture ''resources/textures/saturn.jpg'',
        orbitAngle = 0\<rparr>,
      \<lparr>orbitRadius = 47.95, orbitSpeed = 0.011, selfRotateSpeed = 0.6, size' = 0.15,
        color = (0.7, 0.9, 1), texture = loadTexture ''resources/textures/uranus.jpg'',
        orbitAngle = 0\<rparr>,
      \<lparr>orbitRadius = 75.175, orbitSpeed = 0.006, selfRotateSpeed = 0.5, size' = 0.145,
        color = (0.5, 0.7, 1), texture = loadTexture ''resources/textures/neptune.jpg'',
        orbitAngle = 0\<rparr>]"

text \<open>\<^verbatim>\<open>glm::vec3 + glm::vec3\<close>, componentwise.\<close>

fun vec3_add :: "vec3 \<Rightarrow> vec3 \<Rightarrow> vec3" where
  "vec3_add (ax, ay, az) (bx, by, bz) = (ax + bx, ay + by, az + bz)"

text \<open>
  The expression \<^verbatim>\<open>glm::vec3(cos(p.orbitAngle) * p.orbitRadius, 0.0f,
  sin(p.orbitAngle) * p.orbitRadius)\<close>, which the source writes out at each of its uses.
\<close>

definition orbit_offset :: "Planet \<Rightarrow> vec3" where
  "orbit_offset p = (cos (orbitAngle p) * orbitRadius p, 0, sin (orbitAngle p) * orbitRadius p)"

text \<open>
  \<^verbatim>\<open>for (size_t i = 1; i < planets.size(); ++i)
     planets[i].orbitAngle = currentFrame * planets[i].orbitSpeed;\<close>
\<close>

function animate_loop :: "real \<Rightarrow> nat \<Rightarrow> Planet list \<Rightarrow> Planet list" where
  "animate_loop currentFrame i planets =
     (if i < length planets
      then animate_loop currentFrame (i + 1)
             (planets[i := (planets ! i)\<lparr>orbitAngle := currentFrame * orbitSpeed (planets ! i)\<rparr>])
      else planets)"
  by pat_completeness auto
termination
  by (relation "measure (\<lambda>(currentFrame, i, planets). length planets - i)") auto

declare animate_loop.simps [simp del]

text \<open>The globals \<^verbatim>\<open>planets\<close>, \<^verbatim>\<open>earthPos\<close> and \<^verbatim>\<open>moonPos\<close>.\<close>

record scene =
  planets :: "Planet list"
  earthPos :: vec3
  moonPos :: vec3

text \<open>
  The scene before the first frame: the roster, and \<^verbatim>\<open>earthPos\<close> and \<^verbatim>\<open>moonPos\<close>
  zero-initialised as globals are.
\<close>

definition scene_init :: "(string \<Rightarrow> u32) \<Rightarrow> scene" where
  "scene_init loadTexture =
     \<lparr>planets = planets_init loadTexture, earthPos = (0, 0, 0), moonPos = (0, 0, 0)\<rparr>"

text \<open>
  ``Animate planet orbits'' and ``Animate moon around earth'' of the render loop. The
  source indexes \<^verbatim>\<open>planets[0]\<close>, \<^verbatim>\<open>planets[3]\<close> and \<^verbatim>\<open>planets[4]\<close> unchecked, which is
  undefined on a roster of fewer than five bodies: \<open>None\<close>.
\<close>

definition animate :: "real \<Rightarrow> scene \<Rightarrow> scene option" where
  "animate currentFrame s =
     (if length (planets s) < 5 then None
      else (let planets0 = (planets s)[0 := (planets s ! 0)\<lparr>orbitAngle := 0\<rparr>];
                planets' = animate_loop currentFrame 1 planets0;
                earthPos' = orbit_offset (planets' ! 3);
                moonPos' = vec3_add earthPos' (orbit_offset (planets' ! 4))
            in Some \<lparr>planets = planets', earthPos = earthPos', moonPos = moonPos'\<rparr>))"

text \<open>The position \<^verbatim>\<open>pos\<close> that the draw loop gives body \<open>i\<close>.\<close>

definition draw_pos :: "scene \<Rightarrow> nat \<Rightarrow> vec3" where
  "draw_pos s i =
     (if i = 0 then (0, 0, 0)
      else if i = 4 then vec3_add (earthPos s) (orbit_offset (planets s ! 4))
      else if i = 3 then earthPos s
      else orbit_offset (planets s ! i))"

text \<open>
  The position \<^verbatim>\<open>pos\<close> of the followed body in \<^verbatim>\<open>updateCameraFollow\<close>, around which the
  function then places the camera.
\<close>

definition follow_pos :: "scene \<Rightarrow> int \<Rightarrow> vec3" where
  "follow_pos s idx =
     (if idx = 4 then vec3_add (earthPos s) (orbit_offset (planets s ! 4))
      else if idx = 3 then earthPos s
      else orbit_offset (planets s ! nat idx))"

subsection \<open>Camera control\<close>

datatype CameraMode = FOLLOW_PLANET | FREE

text \<open>
  The callbacks take \<^verbatim>\<open>double\<close> arguments from the window system, convert them to
  \<^verbatim>\<open>float\<close>, and clamp what they accumulate with comparisons. What a comparison does with
  an infinity or a NaN decides whether a clamp works, so in this part of the program a
  floating-point value is a number, an infinity or NaN. Rounding stays outside the
  model: an operation on numbers gives the exact result, or an infinity when the result
  is beyond the largest \<^verbatim>\<open>float\<close>.
\<close>

datatype ieee = Finite real | PInf | NInf | NaN

type_synonym float = ieee

type_synonym double = ieee

definition FLT_MAX :: real where
  "FLT_MAX = 340282346638528859811704183484516925440"

text \<open>The \<^verbatim>\<open>float\<close> for an exact result \<open>x\<close>.\<close>

definition overflow :: "real \<Rightarrow> float" where
  "overflow x = (if FLT_MAX < x then PInf else if x < - FLT_MAX then NInf else Finite x)"

text \<open>\<^verbatim>\<open>static_cast<float>\<close> of a \<^verbatim>\<open>double\<close>.\<close>

fun float_of_double :: "double \<Rightarrow> float" where
  "float_of_double (Finite x) = overflow x"
| "float_of_double PInf = PInf"
| "float_of_double NInf = NInf"
| "float_of_double NaN = NaN"

text \<open>
  The \<^verbatim>\<open>float\<close> operations that the callbacks use: a NaN operand gives NaN, and so do
  \<open>inf - inf\<close> and \<open>inf * 0\<close>; every comparison with NaN is false.
\<close>

instantiation ieee :: "{uminus, plus, minus, times, ord}"
begin

fun uminus_ieee :: "ieee \<Rightarrow> ieee" where
  "uminus_ieee (Finite x) = Finite (- x)"
| "uminus_ieee PInf = NInf"
| "uminus_ieee NInf = PInf"
| "uminus_ieee NaN = NaN"

fun plus_ieee :: "ieee \<Rightarrow> ieee \<Rightarrow> ieee" where
  "plus_ieee NaN y = NaN"
| "plus_ieee x NaN = NaN"
| "plus_ieee (Finite x) (Finite y) = overflow (x + y)"
| "plus_ieee PInf NInf = NaN"
| "plus_ieee NInf PInf = NaN"
| "plus_ieee PInf y = PInf"
| "plus_ieee NInf y = NInf"
| "plus_ieee x PInf = PInf"
| "plus_ieee x NInf = NInf"

definition minus_ieee :: "ieee \<Rightarrow> ieee \<Rightarrow> ieee" where
  "minus_ieee x y = x + (- y)"

fun times_ieee :: "ieee \<Rightarrow> ieee \<Rightarrow> ieee" where
  "times_ieee NaN y = NaN"
| "times_ieee x NaN = NaN"
| "times_ieee (Finite x) (Finite y) = overflow (x * y)"
| "times_ieee (Finite x) y = (if x = 0 then NaN else if 0 < x then y else - y)"
| "times_ieee x (Finite y) = (if y = 0 then NaN else if 0 < y then x else - x)"
| "times_ieee PInf y = y"
| "times_ieee NInf y = - y"

fun less_ieee :: "ieee \<Rightarrow> ieee \<Rightarrow> bool" where
  "less_ieee NaN y = False"
| "less_ieee x NaN = False"
| "less_ieee (Finite x) (Finite y) = (x < y)"
| "less_ieee x NInf = False"
| "less_ieee NInf y = True"
| "less_ieee PInf y = False"
| "less_ieee x PInf = True"

definition less_eq_ieee :: "ieee \<Rightarrow> ieee \<Rightarrow> bool" where
  "less_eq_ieee x y \<longleftrightarrow> x < y \<or> (x = y \<and> x \<noteq> NaN)"

instance ..

end

text \<open>
  Modelled from the spec: the class \<^verbatim>\<open>Camera\<close> of \<^verbatim>\<open>learnopengl/camera.h\<close> is not under
  \<^verbatim>\<open>src/\<close>. Of the free camera the spec says (section 4.4): ``mouse movement adjusts
  yaw/pitch (yaw unclamped, pitch clamped to +-89 degrees); scroll adjusts field of view,
  clamped to a fixed range (e.g. [1, 45] degrees)''. The record keeps the yaw, the pitch and
  the field of view (\<^verbatim>\<open>camera.Zoom\<close> in \<^verbatim>\<open>main\<close>); the scale of the mouse deltas, which the
  spec leaves open, is a field.
\<close>

record Camera =
  Yaw :: float
  Pitch :: float
  Zoom :: float
  MouseSensitivity :: float

text \<open>Modelled from the spec: the range of the field of view, ``e.g. [1, 45] degrees''.\<close>

definition ZOOM_MIN :: real where
  "ZOOM_MIN = 1"

definition ZOOM_MAX :: real where
  "ZOOM_MAX = 45"

text \<open>
  Modelled from the spec: \<^verbatim>\<open>Camera::ProcessMouseMovement\<close> (absent from \<^verbatim>\<open>src/\<close>), ``mouse
  movement adjusts yaw/pitch (yaw unclamped, pitch clamped to +-89 degrees)''. The clamp
  is written as \<^verbatim>\<open>main.cpp\<close> writes its own clamps, with two comparisons.
\<close>

definition ProcessMouseMovement :: "Camera \<Rightarrow> float \<Rightarrow> float \<Rightarrow> Camera" where
  "ProcessMouseMovement c xoffset yoffset =
     (let c1 = c\<lparr>Yaw := Yaw c + xoffset * MouseSensitivity c\<rparr>;
          c2 = c1\<lparr>Pitch := Pitch c1 + yoffset * MouseSensitivity c1\<rparr>;
          c3 = (if Pitch c2 > Finite 89 then c2\<lparr>Pitch := Finite 89\<rparr> else c2)
      in if Pitch c3 < Finite (- 89) then c3\<lparr>Pitch := Finite (- 89)\<rparr> else c3)"

text \<open>
  Modelled from the spec: \<^verbatim>\<open>Camera::ProcessMouseScroll\<close> (absent from \<^verbatim>\<open>src/\<close>), ``scroll
  adjusts field of view, clamped to a fixed range''. The spec does not fix the direction
  of the adjustment; the clamp, again two comparisons, is what the model relies on.
\<close>

definition ProcessMouseScroll :: "Camera \<Rightarrow> float \<Rightarrow> Camera" where
  "ProcessMouseScroll c yoffset =
     (let c1 = c\<lparr>Zoom := Zoom c - yoffset\<rparr>;
          c2 = (if Zoom c1 < Finite ZOOM_MIN then c1\<lparr>Zoom := Finite ZOOM_MIN\<rparr> else c1)
      in if Zoom c2 > Finite ZOOM_MAX then c2\<lparr>Zoom := Finite ZOOM_MAX\<rparr> else c2)"

text \<open>
  The globals that the input handling reads and writes. \<^verbatim>\<open>followedPlanetIdx\<close> is a C
  \<^verbatim>\<open>int\<close>, modelled by \<open>int\<close>: the code keeps it between 1 and 9, far from overflow.
\<close>

record controls =
  cameraMode :: CameraMode
  followedPlanetIdx :: int
  camera :: Camera
  lastX :: float
  lastY :: float
  firstMouse :: bool
  qPressedLast :: bool
  ePressedLast :: bool
  wasdPressedLast :: bool
  orbitYaw :: float
  orbitPitch :: float
  orbitDistance :: float

text \<open>
  The initialisers of these globals (\<^verbatim>\<open>SCR_WIDTH = 1280\<close>, \<^verbatim>\<open>SCR_HEIGHT = 720\<close>). The
  camera object is what \<^verbatim>\<open>Camera\<close>'s constructor builds, a parameter here.
\<close>

definition controls_init :: "Camera \<Rightarrow> controls" where
  "controls_init c =
     \<lparr>cameraMode = FOLLOW_PLANET, followedPlanetIdx = 3, camera = c,
      lastX = Finite (1280 / 2), lastY = Finite (720 / 2), firstMouse = True,
      qPressedLast = False, ePressedLast = False, wasdPressedLast = False,
      orbitYaw = Finite 0, orbitPitch = Finite 20, orbitDistance = Finite 3\<rparr>"

text \<open>One frame's key sample: \<^verbatim>\<open>glfwGetKey(window, GLFW_KEY_X) == GLFW_PRESS\<close>.\<close>

record keys =
  KEY_W :: bool
  KEY_A :: bool
  KEY_S :: bool
  KEY_D :: bool
  KEY_Q :: bool
  KEY_E :: bool

text \<open>
  ``Camera follow/focus logic'' and ``Planet switching'' of the render loop, from the
  sampling of the keys to \<^verbatim>\<open>wasdPressedLast = wasdPressed\<close>. (\<^verbatim>\<open>processInput\<close>, called just
  before, closes the window on Escape and moves the free camera; it reads \<^verbatim>\<open>cameraMode\<close>
  and writes none of the globals below but the camera's position, which is not part of
  the model.)
\<close>

definition switch_camera :: "keys \<Rightarrow> controls \<Rightarrow> controls" where
  "switch_camera k s =
     (let wasdPressed = (KEY_W k \<or> KEY_A k \<or> KEY_S k \<or> KEY_D k);
          qPressed = KEY_Q k;
          ePressed = KEY_E k;
          s1 = (if qPressed \<and> \<not> qPressedLast s
                then (let a = s\<lparr>followedPlanetIdx := followedPlanetIdx s - 1\<rparr>;
                          b = (if followedPlanetIdx a < 1 then a\<lparr>followedPlanetIdx := 9\<rparr> else a)
                      in b\<lparr>cameraMode := FOLLOW_PLANET\<rparr>)
                else s);
          s2 = (if ePressed \<and> \<not> ePressedLast s1
                then (let a = s1\<lparr>followedPlanetIdx := followedPlanetIdx s1 + 1\<rparr>;
                          b = (if followedPlanetIdx a > 9 then a\<lparr>followedPlanetIdx := 1\<rparr> else a)
                      in b\<lparr>cameraMode := FOLLOW_PLANET\<rparr>)
                else s1);
          s3 = s2\<lparr>qPressedLast := qPressed, ePressedLast := ePressed\<rparr>;
          s4 = (if cameraMode s3 = FOLLOW_PLANET \<and> wasdPressed \<and> \<not> wasdPressedLast s3
                then s3\<lparr>cameraMode := FREE\<rparr>
                else s3)
      in s4\<lparr>wasdPressedLast := wasdPressed\<rparr>)"

text \<open>\<^verbatim>\<open>void mouse_callback(GLFWwindow*, double xposIn, double yposIn)\<close>\<close>

definition mouse_callback :: "double \<Rightarrow> double \<Rightarrow> controls \<Rightarrow> controls" where
  "mouse_callback xposIn yposIn s =
     (let xpos = float_of_double xposIn;
          ypos = float_of_double yposIn;
          s1 = (if firstMouse s then s\<lparr>lastX := xpos, lastY := ypos, firstMouse := False\<rparr>
                else s);
          xoffset = xpos - lastX s1;
          yoffset = lastY s1 - ypos;
          s2 = s1\<lparr>lastX := xpos, lastY := ypos\<rparr>
      in if cameraMode s2 = FREE
         then s2\<lparr>camera := ProcessMouseMovement (camera s2) xoffset yoffset\<rparr>
         else if cameraMode s2 = FOLLOW_PLANET
         then (let sensitivity = Finite 0.15;
                   s3 = s2\<lparr>orbitYaw := orbitYaw s2 + xoffset * sensitivity\<rparr>;
                   s4 = s3\<lparr>orbitPitch := orbitPitch s3 + yoffset * sensitivity\<rparr>;
                   s5 = (if orbitPitch s4 > Finite 89 then s4\<lparr>orbitPitch := Finite 89\<rparr> else s4)
               in if orbitPitch s5 < Finite (- 89) then s5\<lparr>orbitPitch := Finite (- 89)\<rparr> else s5)
         else s2)"

text \<open>\<^verbatim>\<open>void scroll_callback(GLFWwindow*, double xoffset, double yoffset)\<close>\<close>

definition scroll_callback :: "double \<Rightarrow> double \<Rightarrow> controls \<Rightarrow> controls" where
  "scroll_callback xoffset yoffset s =
     (if cameraMode s = FREE
      then s\<lparr>camera := ProcessMouseScroll (camera s) (float_of_double yoffset)\<rparr>
      else if cameraMode s = FOLLOW_PLANET
      then (let s1 = s\<lparr>orbitDistance := orbitDistance s - float_of_double yoffset * Finite 0.2\<rparr>;
                s2 = (if orbitDistance s1 < Finite 0.5 then s1\<lparr>orbitDistance := Finite 0.5\<rparr> else s1)
            in if orbitDistance s2 > Finite 30 then s2\<lparr>orbitDistance := Finite 30\<rparr> else s2)
      else s)"

text \<open>
  What reaches the input handling over time: the window system calls the two callbacks,
  and each pass of the render loop samples the keys once.
\<close>

datatype input = CursorPos double double | Scroll double double | Frame keys

fun handle_input :: "controls \<Rightarrow> input \<Rightarrow> controls" where
  "handle_input s (CursorPos xposIn yposIn) = mouse_callback xposIn yposIn s"
| "handle_input s (Scroll xoffset yoffset) = scroll_callback xoffset yoffset s"
| "handle_input s (Frame k) = switch_camera k s"

definition run_inputs :: "controls \<Rightarrow> input list \<Rightarrow> controls" where
  "run_inputs s inputs = foldl handle_input s inputs"

section \<open>Auxiliary definitions\<close>

text \<open>
  What the inner vertex loop appends for row \<open>i\<close> when it starts at column \<open>j0\<close>, and what the
  outer loop appends when it starts at row \<open>i0\<close>.
\<close>

definition sphere_row :: "real \<Rightarrow> u32 \<Rightarrow> u32 \<Rightarrow> u32 \<Rightarrow> nat \<Rightarrow> real list" where
  "sphere_row radius sectorCount stackCount i j0 =
     concat (map (\<lambda>c. sphere_vertex radius sectorCount stackCount i (of_nat c))
       [j0..<unat sectorCount + 1])"

definition sphere_vertices :: "real \<Rightarrow> u32 \<Rightarrow> u32 \<Rightarrow> nat \<Rightarrow> real list" where
  "sphere_vertices radius sectorCount stackCount i0 =
     concat (map (\<lambda>r. sphere_row radius sectorCount stackCount (of_nat r) 0)
       [i0..<unat stackCount + 1])"

text \<open>The indices one iteration of the inner index loop appends, and how many triangles.\<close>

definition quad_indices :: "u32 \<Rightarrow> u32 \<Rightarrow> u32 \<Rightarrow> u32 \<Rightarrow> u32 list" where
  "quad_indices stackCount i k1 k2 =
     (if i \<noteq> 0 then [k1, k2, k1 + 1] else []) @
     (if i \<noteq> stackCount - 1 then [k1 + 1, k2, k2 + 1] else [])"

definition row_triangles :: "u32 \<Rightarrow> u32 \<Rightarrow> nat" where
  "row_triangles stackCount i =
     (if i \<noteq> 0 then 1 else 0) + (if i \<noteq> stackCount - 1 then 1 else 0)"

text \<open>The number of vertices, \<open>(stackCount + 1) * (sectorCount + 1)\<close>, as a natural number.\<close>

definition vertex_count :: "u32 \<Rightarrow> u32 \<Rightarrow> nat" where
  "vertex_count sectorCount stackCount = (unat stackCount + 1) * (unat sectorCount + 1)"

text \<open>
  The generator state after \<open>k\<close> calls of \<^verbatim>\<open>rand()\<close> from state \<open>g\<close>, and the value that
  call number \<open>k\<close> (counted from 0) returns.
\<close>

definition rand_state :: "('g \<Rightarrow> int \<times> 'g) \<Rightarrow> 'g \<Rightarrow> nat \<Rightarrow> 'g" where
  "rand_state rand g k = ((\<lambda>h. snd (rand h)) ^^ k) g"

definition rand_value :: "('g \<Rightarrow> int \<times> 'g) \<Rightarrow> 'g \<Rightarrow> nat \<Rightarrow> int" where
  "rand_value rand g k = fst (rand (rand_state rand g k))"

text \<open>
  Instance \<open>i\<close> of the asteroid belt when \<open>d k\<close> is the value of call \<open>k\<close>: the angle is
  \<open>i / n * 2\<pi>\<close>, and calls \<open>3 * i\<close>, \<open>3 * i + 1\<close> and \<open>3 * i + 2\<close> give radius, height and
  scale.
\<close>

definition belt_position :: "int \<Rightarrow> int \<Rightarrow> (nat \<Rightarrow> int) \<Rightarrow> nat \<Rightarrow> vec3" where
  "belt_position RAND_MAX n d i =
     (cos (real i / real_of_int n * two_pi) *
        (5.5 + real_of_int (d (3 * i)) / real_of_int RAND_MAX * 2.5),
      (real_of_int (d (3 * i + 1)) / real_of_int RAND_MAX - 0.5) * 0.25,
      sin (real i / real_of_int n * two_pi) *
        (5.5 + real_of_int (d (3 * i)) / real_of_int RAND_MAX * 2.5))"

definition belt_scale :: "int \<Rightarrow> (nat \<Rightarrow> int) \<Rightarrow> nat \<Rightarrow> real" where
  "belt_scale RAND_MAX d i = 0.02 + real_of_int (d (3 * i + 2)) / real_of_int RAND_MAX * 0.0175"

text \<open>
  A directional key is pressed in a key sample (\<^verbatim>\<open>wasdPressed\<close> in the source), and the
  sample with no key pressed.
\<close>

definition wasd :: "keys \<Rightarrow> bool" where
  "wasd k \<longleftrightarrow> KEY_W k \<or> KEY_A k \<or> KEY_S k \<or> KEY_D k"

definition no_keys :: keys where
  "no_keys = \<lparr>KEY_W = False, KEY_A = False, KEY_S = False, KEY_D = False,
              KEY_Q = False, KEY_E = False\<rparr>"

text \<open>A floating-point value is a number between \<open>lo\<close> and \<open>hi\<close>.\<close>

fun in_interval :: "real \<Rightarrow> real \<Rightarrow> ieee \<Rightarrow> bool" where
  "in_interval lo hi (Finite x) = (lo \<le> x \<and> x \<le> hi)"
| "in_interval lo hi PInf = False"
| "in_interval lo hi NInf = False"
| "in_interval lo hi NaN = False"

text \<open>
  A \<^verbatim>\<open>double\<close> that \<^verbatim>\<open>static_cast<float>\<close> takes to a number: it is a number of magnitude
  at most \<open>FLT_MAX\<close>.
\<close>

fun fits_float :: "double \<Rightarrow> bool" where
  "fits_float (Finite x) = (\<bar>x\<bar> \<le> FLT_MAX)"
| "fits_float PInf = False"
| "fits_float NInf = False"
| "fits_float NaN = False"

text \<open>
  The inputs on which the clamps are shown to work: a cursor event whose vertical
  coordinate fits a \<^verbatim>\<open>float\<close>, a scroll event whose vertical offset is not NaN, any key
  sample.
\<close>

fun well_formed :: "input \<Rightarrow> bool" where
  "well_formed (CursorPos xposIn yposIn) = fits_float yposIn"
| "well_formed (Scroll xoffset yoffset) = (yoffset \<noteq> NaN)"
| "well_formed (Frame k) = True"

text \<open>The ranges of the camera state, with a last vertical cursor position that is a number.\<close>

definition in_ranges :: "controls \<Rightarrow> bool" where
  "in_ranges s \<longleftrightarrow>
     in_interval (- 89) 89 (orbitPitch s) \<and>
     in_interval 0.5 30 (orbitDistance s) \<and>
     in_interval ZOOM_MIN ZOOM_MAX (Zoom (camera s)) \<and>
     fits_float (lastY s)"

section \<open>The sphere mesh\<close>

subsection \<open>Counters that do not wrap\<close>

lemma UINT_MAX_eq: "UINT_MAX = - 1"
  by (simp add: UINT_MAX_def)

lemma unat_succ_less: "j < (n::u32) \<Longrightarrow> unat (j + 1) = Suc (unat j)"
proof -
  assume "j < n"
  then have "unat j < unat n" by (simp add: word_less_nat_alt)
  moreover have "unat n < 2 ^ 32" using unsigned_less [of n] by simp
  ultimately have "unat j + unat (1::u32) < 2 ^ LENGTH(32)" by simp
  then have "unat (j + 1) = unat j + unat (1::u32)" by (simp only: unat_add_lem [THEN iffD1])
  then show ?thesis by simp
qed

lemma unat_succ_le: "j \<le> n \<Longrightarrow> n \<noteq> UINT_MAX \<Longrightarrow> unat (j + 1) = Suc (unat j)"
proof -
  assume a: "j \<le> n" "n \<noteq> UINT_MAX"
  then have "n < - 1" by (simp add: word_order.not_eq_extremum UINT_MAX_eq)
  with a have "j < - 1" by simp
  then show ?thesis by (rule unat_succ_less)
qed

subsection \<open>The vertex loops\<close>

lemma length_sphere_vertex: "length (sphere_vertex radius sectorCount stackCount i j) = 8"
  by (simp add: sphere_vertex_def Let_def)

lemma of_nat_unat_u32: "(of_nat (unat w) :: u32) = w"
  by simp

lemma length_concat_const:
  "(\<And>x. length (f x) = k) \<Longrightarrow> length (concat (map f xs)) = k * length xs"
  by (induction xs) simp_all

lemma length_sphere_row:
  "length (sphere_row radius sectorCount stackCount i j0) = 8 * (unat sectorCount + 1 - j0)"
  unfolding sphere_row_def
  by (subst length_concat_const [where k = 8]) (simp_all add: length_sphere_vertex Suc_diff_le)

lemma length_sphere_vertices:
  "length (sphere_vertices radius sectorCount stackCount i0) =
     8 * (unat sectorCount + 1) * (unat stackCount + 1 - i0)"
  unfolding sphere_vertices_def
  by (subst length_concat_const [where k = "8 * (unat sectorCount + 1)"])
     (simp_all add: length_sphere_row Suc_diff_le)

lemma vertex_cols_run:
  assumes "sectorCount \<noteq> UINT_MAX"
  shows "unat j \<le> unat sectorCount + 1 \<Longrightarrow> n = unat sectorCount + 1 - unat j \<Longrightarrow>
     vertex_cols radius sectorCount stackCount i j vertices =
       Some (vertices @ sphere_row radius sectorCount stackCount i (unat j))"
proof (induction n arbitrary: j vertices)
  case 0
  then have "unat j = unat sectorCount + 1" by simp
  then have "\<not> j \<le> sectorCount" by (simp add: word_le_nat_alt)
  moreover have "sphere_row radius sectorCount stackCount i (unat j) = []"
    using \<open>unat j = unat sectorCount + 1\<close> by (simp add: sphere_row_def)
  ultimately show ?case by (simp add: vertex_cols.simps)
next
  case (Suc n)
  then have le: "unat j \<le> unat sectorCount" by simp
  then have jle: "j \<le> sectorCount" by (simp add: word_le_nat_alt)
  have suc: "unat (j + 1) = Suc (unat j)"
    using jle assms by (rule unat_succ_le)
  have ih: "vertex_cols radius sectorCount stackCount i (j + 1)
              (vertices @ sphere_vertex radius sectorCount stackCount i j) =
            Some ((vertices @ sphere_vertex radius sectorCount stackCount i j) @
              sphere_row radius sectorCount stackCount i (unat (j + 1)))"
    using Suc.prems le by (intro Suc.IH) (simp_all add: suc)
  have "[unat j..<unat sectorCount + 1] = unat j # [Suc (unat j)..<unat sectorCount + 1]"
    using le by (intro upt_conv_Cons) simp
  then have row: "sphere_row radius sectorCount stackCount i (unat j) =
      sphere_vertex radius sectorCount stackCount i j @
      sphere_row radius sectorCount stackCount i (Suc (unat j))"
    by (simp only: sphere_row_def list.map concat.simps of_nat_unat_u32)
  show ?case
    by (subst vertex_cols.simps) (simp add: jle ih row suc)
qed

lemma vertex_cols_loops:
  assumes "vertex_cols radius sectorCount stackCount i j vertices = Some y"
  shows "sectorCount \<noteq> UINT_MAX"
  by (rule vertex_cols.raw_induct
        [where P = "\<lambda>radius sectorCount stackCount i j vertices y. sectorCount \<noteq> UINT_MAX",
         OF _ assms])
     (auto simp: UINT_MAX_eq split: if_splits)

lemma vertex_rows_run:
  assumes "sectorCount \<noteq> UINT_MAX" "stackCount \<noteq> UINT_MAX"
  shows "unat i \<le> unat stackCount + 1 \<Longrightarrow> n = unat stackCount + 1 - unat i \<Longrightarrow>
     vertex_rows radius sectorCount stackCount i vertices =
       Some (vertices @ sphere_vertices radius sectorCount stackCount (unat i))"
proof (induction n arbitrary: i vertices)
  case 0
  then have "unat i = unat stackCount + 1" by simp
  then have "\<not> i \<le> stackCount" by (simp add: word_le_nat_alt)
  moreover have "sphere_vertices radius sectorCount stackCount (unat i) = []"
    using \<open>unat i = unat stackCount + 1\<close> by (simp add: sphere_vertices_def)
  ultimately show ?case by (simp add: vertex_rows.simps)
next
  case (Suc n)
  then have le: "unat i \<le> unat stackCount" by simp
  then have ile: "i \<le> stackCount" by (simp add: word_le_nat_alt)
  have suc: "unat (i + 1) = Suc (unat i)"
    using ile assms(2) by (rule unat_succ_le)
  have cols: "vertex_cols radius sectorCount stackCount i 0 vertices =
      Some (vertices @ sphere_row radius sectorCount stackCount i 0)"
    using vertex_cols_run [OF assms(1), of 0 _ radius stackCount i vertices] by simp
  have ih: "vertex_rows radius sectorCount stackCount (i + 1)
              (vertices @ sphere_row radius sectorCount stackCount i 0) =
            Some ((vertices @ sphere_row radius sectorCount stackCount i 0) @
              sphere_vertices radius sectorCount stackCount (unat (i + 1)))"
    using Suc.prems le by (intro Suc.IH) (simp_all add: suc)
  have "[unat i..<unat stackCount + 1] = unat i # [Suc (unat i)..<unat stackCount + 1]"
    using le by (intro upt_conv_Cons) simp
  then have rows: "sphere_vertices radius sectorCount stackCount (unat i) =
      sphere_row radius sectorCount stackCount i 0 @
      sphere_vertices radius sectorCount stackCount (Suc (unat i))"
    by (simp only: sphere_vertices_def list.map concat.simps of_nat_unat_u32)
  show ?case
    by (subst vertex_rows.simps) (simp add: ile cols ih rows suc)
qed

lemma vertex_rows_loops_stack:
  assumes "vertex_rows radius sectorCount stackCount i vertices = Some y"
  shows "stackCount \<noteq> UINT_MAX"
  by (rule vertex_rows.raw_induct
        [where P = "\<lambda>radius sectorCount stackCount i vertices y. stackCount \<noteq> UINT_MAX",
         OF _ assms])
     (auto simp: UINT_MAX_eq split: if_splits bind_splits)

lemma vertex_rows_loops_sector:
  assumes "vertex_rows radius sectorCount stackCount 0 vertices = Some y"
  shows "sectorCount \<noteq> UINT_MAX"
proof -
  from assms obtain v where "vertex_cols radius sectorCount stackCount 0 0 vertices = Some v"
    by (subst (asm) vertex_rows.simps) (auto split: bind_splits)
  then show ?thesis by (rule vertex_cols_loops)
qed

lemma createSphere_eq:
  "createSphere vertices indices radius sectorCount stackCount =
     (if sectorCount = UINT_MAX \<or> stackCount = UINT_MAX then None
      else Some (vertices @ sphere_vertices radius sectorCount stackCount 0,
                 index_rows sectorCount stackCount 0 indices))"
proof (cases "sectorCount = UINT_MAX \<or> stackCount = UINT_MAX")
  case True
  have "vertex_rows radius sectorCount stackCount 0 vertices = None"
  proof (rule ccontr)
    assume "vertex_rows radius sectorCount stackCount 0 vertices \<noteq> None"
    then obtain y where "vertex_rows radius sectorCount stackCount 0 vertices = Some y"
      by auto
    with True show False
      using vertex_rows_loops_stack vertex_rows_loops_sector by blast
  qed
  with True show ?thesis by (simp add: createSphere_def)
next
  case False
  then have "vertex_rows radius sectorCount stackCount 0 vertices =
      Some (vertices @ sphere_vertices radius sectorCount stackCount 0)"
    using vertex_rows_run [of sectorCount stackCount 0 _ radius vertices] by simp
  with False show ?thesis by (simp add: createSphere_def)
qed

subsection \<open>The index loops\<close>

lemma index_cols_unfold:
  "index_cols sectorCount stackCount i j k1 k2 indices =
     (if j < sectorCount
      then index_cols sectorCount stackCount i (j + 1) (k1 + 1) (k2 + 1)
             (indices @ quad_indices stackCount i k1 k2)
      else indices)"
  by (subst index_cols.simps) (simp add: quad_indices_def Let_def)

lemma index_rows_unfold:
  "index_rows sectorCount stackCount i indices =
     (if i < stackCount
      then index_rows sectorCount stackCount (i + 1)
             (index_cols sectorCount stackCount i 0 (i * (sectorCount + 1))
                (i * (sectorCount + 1) + sectorCount + 1) indices)
      else indices)"
  by (subst index_rows.simps) (simp add: Let_def)

lemma index_cols_append:
  "index_cols sectorCount stackCount i j k1 k2 (prior @ indices) =
     prior @ index_cols sectorCount stackCount i j k1 k2 indices"
proof (induction sectorCount stackCount i j k1 k2 indices arbitrary: prior
       rule: index_cols.induct)
  case (1 sectorCount stackCount i j k1 k2 indices)
  show ?case
  proof (cases "j < sectorCount")
    case True
    have "index_cols sectorCount stackCount i (j + 1) (k1 + 1) (k2 + 1)
            (prior @ (indices @ quad_indices stackCount i k1 k2)) =
          prior @ index_cols sectorCount stackCount i (j + 1) (k1 + 1) (k2 + 1)
            (indices @ quad_indices stackCount i k1 k2)"
      by (rule "1.IH" [OF True refl]) (simp add: quad_indices_def)
    with True show ?thesis
      by (simp add: index_cols_unfold [of _ _ _ j])
  next
    case False
    then show ?thesis by (simp add: index_cols_unfold [of _ _ _ j])
  qed
qed

lemma index_rows_append:
  "index_rows sectorCount stackCount i (prior @ indices) =
     prior @ index_rows sectorCount stackCount i indices"
proof (induction sectorCount stackCount i indices arbitrary: prior rule: index_rows.induct)
  case (1 sectorCount stackCount i indices)
  show ?case
  proof (cases "i < stackCount")
    case True
    have "index_rows sectorCount stackCount (i + 1)
            (prior @ index_cols sectorCount stackCount i 0 (i * (sectorCount + 1))
                (i * (sectorCount + 1) + sectorCount + 1) indices) =
          prior @ index_rows sectorCount stackCount (i + 1)
            (index_cols sectorCount stackCount i 0 (i * (sectorCount + 1))
                (i * (sectorCount + 1) + sectorCount + 1) indices)"
      by (rule "1.IH" [OF True refl refl])
    with True show ?thesis
      by (simp add: index_rows_unfold [of _ _ i] index_cols_append)
  next
    case False
    then show ?thesis by (simp add: index_rows_unfold [of _ _ i])
  qed
qed

lemma length_quad_indices:
  "length (quad_indices stackCount i k1 k2) = 3 * row_triangles stackCount i"
  by (simp add: quad_indices_def row_triangles_def)

lemma length_index_cols:
  "length (index_cols sectorCount stackCount i j k1 k2 indices) =
     length indices + 3 * row_triangles stackCount i * (unat sectorCount - unat j)"
proof (induction sectorCount stackCount i j k1 k2 indices rule: index_cols.induct)
  case (1 sectorCount stackCount i j k1 k2 indices)
  show ?case
  proof (cases "j < sectorCount")
    case True
    have ih: "length (index_cols sectorCount stackCount i (j + 1) (k1 + 1) (k2 + 1)
                 (indices @ quad_indices stackCount i k1 k2)) =
          length (indices @ quad_indices stackCount i k1 k2) +
          3 * row_triangles stackCount i * (unat sectorCount - unat (j + 1))"
      by (rule "1.IH" [OF True refl]) (simp add: quad_indices_def)
    have suc: "unat (j + 1) = Suc (unat j)"
      using True by (rule unat_succ_less)
    have lt: "unat j < unat sectorCount"
      using True by (simp add: word_less_nat_alt)
    then have "unat sectorCount - unat j = Suc (unat sectorCount - Suc (unat j))"
      by simp
    with True ih suc show ?thesis
      by (simp add: index_cols_unfold [of _ _ _ j] length_quad_indices)
  next
    case False
    then have "unat sectorCount - unat j = 0"
      by (simp add: word_less_nat_alt)
    with False show ?thesis by (simp add: index_cols_unfold [of _ _ _ j])
  qed
qed

lemma length_index_rows:
  "length (index_rows sectorCount stackCount i indices) =
     length indices +
     3 * unat sectorCount * (\<Sum>r = unat i..<unat stackCount. row_triangles stackCount (of_nat r))"
proof (induction sectorCount stackCount i indices rule: index_rows.induct)
  case (1 sectorCount stackCount i indices)
  show ?case
  proof (cases "i < stackCount")
    case True
    have ih: "length (index_rows sectorCount stackCount (i + 1)
            (index_cols sectorCount stackCount i 0 (i * (sectorCount + 1))
                (i * (sectorCount + 1) + sectorCount + 1) indices)) =
          length (index_cols sectorCount stackCount i 0 (i * (sectorCount + 1))
                (i * (sectorCount + 1) + sectorCount + 1) indices) +
          3 * unat sectorCount *
            (\<Sum>r = unat (i + 1)..<unat stackCount. row_triangles stackCount (of_nat r))"
      by (rule "1.IH" [OF True refl refl])
    have suc: "unat (i + 1) = Suc (unat i)"
      using True by (rule unat_succ_less)
    have lt: "unat i < unat stackCount"
      using True by (simp add: word_less_nat_alt)
    have "(\<Sum>r = unat i..<unat stackCount. row_triangles stackCount (of_nat r)) =
          row_triangles stackCount i +
          (\<Sum>r = Suc (unat i)..<unat stackCount. row_triangles stackCount (of_nat r))"
      using lt by (simp add: sum.atLeast_Suc_lessThan)
    with True ih suc show ?thesis
      by (simp add: index_rows_unfold [of _ _ i] length_index_cols algebra_simps)
  next
    case False
    then have "unat stackCount \<le> unat i"
      by (simp add: word_less_nat_alt)
    with False show ?thesis by (simp add: index_rows_unfold [of _ _ i])
  qed
qed

lemma row_triangles_of_nat:
  assumes "r < unat stackCount"
  shows "row_triangles stackCount (of_nat r) =
     (if r \<noteq> 0 then 1 else 0) + (if Suc r \<noteq> unat stackCount then 1 else 0)"
proof -
  have r32: "r < 2 ^ 32"
    using assms unsigned_less [of stackCount, where 'a = nat] by simp
  then have ur: "unat (of_nat r :: u32) = r"
    by (simp add: unat_of_nat)
  have "1 \<le> unat stackCount" using assms by simp
  then have "1 \<le> stackCount" by (simp add: word_le_nat_alt)
  then have us: "unat (stackCount - 1) = unat stackCount - 1"
    by (simp add: unat_sub)
  have a: "(of_nat r :: u32) \<noteq> 0 \<longleftrightarrow> r \<noteq> 0"
    using ur by (simp add: word_unat_eq_iff)
  have b: "(of_nat r :: u32) \<noteq> stackCount - 1 \<longleftrightarrow> Suc r \<noteq> unat stackCount"
    using ur us assms by (simp add: word_unat_eq_iff) arith
  show ?thesis
    unfolding row_triangles_def a b ..
qed

lemma sum_first_rows: "(\<Sum>r = 0..<Suc m. if r \<noteq> 0 then 1 else (0::nat)) = m"
  by (induction m) simp_all

lemma sum_last_rows: "(\<Sum>r = 0..<Suc m. if Suc r \<noteq> Suc m then 1 else (0::nat)) = m"
proof -
  have "(\<Sum>r = 0..<Suc m. if Suc r \<noteq> Suc m then 1 else (0::nat)) =
        (\<Sum>r = 0..<m. if Suc r \<noteq> Suc m then 1 else (0::nat))"
    by simp
  also have "\<dots> = (\<Sum>r = 0..<m. 1)"
    by (rule sum.cong) simp_all
  finally show ?thesis by simp
qed

lemma sum_row_triangles:
  "(\<Sum>r = 0..<n. (if r \<noteq> 0 then 1 else 0) + (if Suc r \<noteq> n then 1 else (0::nat))) = 2 * (n - 1)"
proof (cases n)
  case 0
  then show ?thesis by simp
next
  case (Suc m)
  show ?thesis
    unfolding Suc sum.distrib sum_first_rows sum_last_rows by simp
qed

lemma length_index_rows_all:
  "length (index_rows sectorCount stackCount 0 []) =
     3 * (2 * unat sectorCount * (unat stackCount - 1))"
proof -
  have "(\<Sum>r = 0..<unat stackCount. row_triangles stackCount (of_nat r)) =
        (\<Sum>r = 0..<unat stackCount.
           (if r \<noteq> 0 then 1 else 0) + (if Suc r \<noteq> unat stackCount then 1 else 0))"
    by (rule sum.cong) (simp_all add: row_triangles_of_nat)
  then have "(\<Sum>r = 0..<unat stackCount. row_triangles stackCount (of_nat r)) =
        2 * (unat stackCount - 1)"
    by (simp only: sum_row_triangles)
  then show ?thesis
    by (simp add: length_index_rows)
qed

lemma unat_add_le: "unat (a + b :: u32) \<le> unat a + unat b"
  by (simp add: unat_word_ariths)

lemma unat_mult_le: "unat (a * b :: u32) \<le> unat a * unat b"
  by (simp add: unat_word_ariths)

lemma unat_inc_le: "unat (a + 1 :: u32) \<le> unat a + 1"
  using unat_add_le [of a 1] by simp

lemma quad_index_bound:
  assumes "unat i < unat stackCount" "unat j < unat sectorCount"
    and "x \<le> unat i * (unat sectorCount + 1) + unat j + unat sectorCount + 2"
  shows "x < vertex_count sectorCount stackCount"
proof -
  have "unat i + 2 \<le> unat stackCount + 1" using assms(1) by simp
  then have "(unat i + 2) * (unat sectorCount + 1) \<le> (unat stackCount + 1) * (unat sectorCount + 1)"
    by (rule mult_le_mono1)
  moreover have "unat i * (unat sectorCount + 1) + unat j + unat sectorCount + 2
      < (unat i + 2) * (unat sectorCount + 1)"
    using assms(2) by (simp add: algebra_simps)
  ultimately show ?thesis using assms(3) unfolding vertex_count_def by linarith
qed

lemma index_cols_bound:
  assumes "i < stackCount"
  shows "\<forall>x\<in>set indices. unat x < vertex_count sectorCount stackCount \<Longrightarrow>
     unat k1 \<le> unat i * (unat sectorCount + 1) + unat j \<Longrightarrow>
     unat k2 \<le> unat i * (unat sectorCount + 1) + unat j + unat sectorCount + 1 \<Longrightarrow>
     \<forall>x\<in>set (index_cols sectorCount stackCount i j k1 k2 indices).
        unat x < vertex_count sectorCount stackCount"
  using assms
proof (induction sectorCount stackCount i j k1 k2 indices rule: index_cols.induct)
  case (1 sectorCount stackCount i j k1 k2 indices)
  show ?case
  proof (cases "j < sectorCount")
    case True
    have suc: "unat (j + 1) = Suc (unat j)"
      using True by (rule unat_succ_less)
    have jlt: "unat j < unat sectorCount"
      using True by (simp add: word_less_nat_alt)
    have ilt: "unat i < unat stackCount"
      using "1.prems"(4) by (simp add: word_less_nat_alt)
    have k1': "unat (k1 + 1) \<le> unat i * (unat sectorCount + 1) + unat j + 1"
      using unat_inc_le [of k1] "1.prems"(2) by linarith
    have k2': "unat (k2 + 1) \<le> unat i * (unat sectorCount + 1) + unat j + unat sectorCount + 2"
      using unat_inc_le [of k2] "1.prems"(3) by linarith
    have e1: "unat k1 < vertex_count sectorCount stackCount"
      using ilt jlt by (rule quad_index_bound) (use "1.prems"(2) in linarith)
    have e2: "unat k2 < vertex_count sectorCount stackCount"
      using ilt jlt by (rule quad_index_bound) (use "1.prems"(3) in linarith)
    have e3: "unat (k1 + 1) < vertex_count sectorCount stackCount"
      using ilt jlt by (rule quad_index_bound) (use k1' in linarith)
    have e4: "unat (k2 + 1) < vertex_count sectorCount stackCount"
      using ilt jlt by (rule quad_index_bound) (use k2' in linarith)
    have new: "\<forall>x\<in>set (indices @ quad_indices stackCount i k1 k2).
        unat x < vertex_count sectorCount stackCount"
      using "1.prems"(1) e1 e2 e3 e4 by (auto simp: quad_indices_def)
    have "\<forall>x\<in>set (index_cols sectorCount stackCount i (j + 1) (k1 + 1) (k2 + 1)
              (indices @ quad_indices stackCount i k1 k2)).
        unat x < vertex_count sectorCount stackCount"
    proof (rule "1.IH" [OF True refl _ _ _ _ "1.prems"(4)])
      show "indices @ quad_indices stackCount i k1 k2 =
        (if i \<noteq> stackCount - 1
         then (if i \<noteq> 0 then indices @ [k1, k2, k1 + 1] else indices) @ [k1 + 1, k2, k2 + 1]
         else if i \<noteq> 0 then indices @ [k1, k2, k1 + 1] else indices)"
        by (simp add: quad_indices_def)
      show "\<forall>x\<in>set (indices @ quad_indices stackCount i k1 k2).
        unat x < vertex_count sectorCount stackCount"
        by (rule new)
      show "unat (k1 + 1) \<le> unat i * (unat sectorCount + 1) + unat (j + 1)"
        using k1' suc by simp
      show "unat (k2 + 1) \<le> unat i * (unat sectorCount + 1) + unat (j + 1) + unat sectorCount + 1"
        using k2' suc by simp
    qed
    with True show ?thesis
      by (simp add: index_cols_unfold [of _ _ _ j])
  next
    case False
    with "1.prems"(1) show ?thesis
      by (simp add: index_cols_unfold [of _ _ _ j])
  qed
qed

lemma index_rows_bound:
  "\<forall>x\<in>set indices. unat x < vertex_count sectorCount stackCount \<Longrightarrow>
     \<forall>x\<in>set (index_rows sectorCount stackCount i indices).
        unat x < vertex_count sectorCount stackCount"
proof (induction sectorCount stackCount i indices rule: index_rows.induct)
  case (1 sectorCount stackCount i indices)
  show ?case
  proof (cases "i < stackCount")
    case True
    have "unat (i * (sectorCount + 1)) \<le> unat i * unat (sectorCount + 1)"
      by (rule unat_mult_le)
    also have "\<dots> \<le> unat i * (unat sectorCount + 1)"
      by (rule mult_le_mono2) (rule unat_inc_le)
    finally have k1: "unat (i * (sectorCount + 1)) \<le> unat i * (unat sectorCount + 1)" .
    have "unat (i * (sectorCount + 1) + sectorCount + 1) \<le>
        unat (i * (sectorCount + 1) + sectorCount) + 1"
      by (rule unat_inc_le)
    also have "\<dots> \<le> unat (i * (sectorCount + 1)) + unat sectorCount + 1"
      using unat_add_le [of "i * (sectorCount + 1)" sectorCount] by simp
    also have "\<dots> \<le> unat i * (unat sectorCount + 1) + unat sectorCount + 1"
      using k1 by simp
    finally have k2: "unat (i * (sectorCount + 1) + sectorCount + 1) \<le>
        unat i * (unat sectorCount + 1) + unat sectorCount + 1" .
    have cols: "\<forall>x\<in>set (index_cols sectorCount stackCount i 0 (i * (sectorCount + 1))
                (i * (sectorCount + 1) + sectorCount + 1) indices).
        unat x < vertex_count sectorCount stackCount"
      using True "1.prems" by (rule index_cols_bound) (use k1 k2 in simp_all)
    have "\<forall>x\<in>set (index_rows sectorCount stackCount (i + 1)
            (index_cols sectorCount stackCount i 0 (i * (sectorCount + 1))
                (i * (sectorCount + 1) + sectorCount + 1) indices)).
        unat x < vertex_count sectorCount stackCount"
      by (rule "1.IH" [OF True refl refl cols])
    with True show ?thesis
      by (simp add: index_rows_unfold [of _ _ i])
  next
    case False
    with "1.prems" show ?thesis
      by (simp add: index_rows_unfold [of _ _ i])
  qed
qed

subsection \<open>The generated mesh\<close>

lemma length_sphere_vertices_all:
  "length (sphere_vertices radius sectorCount stackCount 0) =
     8 * ((unat stackCount + 1) * (unat sectorCount + 1))"
  by (simp add: length_sphere_vertices algebra_simps)

lemma createSphere_returns:
  assumes "sectorCount < UINT_MAX" and "stackCount < UINT_MAX"
  shows "createSphere vertices indices radius sectorCount stackCount =
      Some (vertices @ sphere_vertices radius sectorCount stackCount 0,
            index_rows sectorCount stackCount 0 indices)"
proof -
  from assms have "sectorCount \<noteq> UINT_MAX" and "stackCount \<noteq> UINT_MAX"
    by auto
  then show ?thesis by (simp add: createSphere_eq)
qed

lemma row_triangles_cases:
  assumes "3 \<le> stackCount"
  shows "row_triangles stackCount i = (if i = 0 \<or> i = stackCount - 1 then 1 else 2)"
proof -
  have "3 \<le> unat stackCount"
    using assms by (simp add: word_le_nat_alt)
  then have "stackCount \<noteq> 1"
    by auto
  then have "stackCount - 1 \<noteq> 0"
    by simp
  then show ?thesis
    by (auto simp: row_triangles_def)
qed

lemma createSphere_produces:
  assumes "sectorCount < UINT_MAX" and "stackCount < UINT_MAX"
  shows "createSphere vertices indices radius sectorCount stackCount =
      Some (vertices @ sphere_vertices radius sectorCount stackCount 0,
            indices @ index_rows sectorCount stackCount 0 [])"
  using index_rows_append [of sectorCount stackCount 0 indices "[]"]
  by (simp add: createSphere_returns [OF assms])

text \<open>
  Claim C1, as amended. For every radius \<open>> 0\<close> and all \<open>sectorCount\<close>, \<open>stackCount\<close> from 3
  up to, but excluding, \<open>UINT_MAX\<close>, \<^verbatim>\<open>createSphere\<close> returns, having produced (appended to
  the vectors it was given) exactly \<open>(stackCount + 1) * (sectorCount + 1)\<close> vertices of
  eight floats and exactly \<open>2 * sectorCount * (stackCount - 1)\<close> triangles of three indices.
  The triangle count is reduced because the first and the last stack row emit one
  triangle per sector quad, and every row between them two.
\<close>

theorem createSphere_counts:
  assumes "0 < radius"
    and "3 \<le> sectorCount" and "sectorCount < UINT_MAX"
    and "3 \<le> stackCount" and "stackCount < UINT_MAX"
  shows "\<exists>vertices' indices'.
      createSphere vertices indices radius sectorCount stackCount =
        Some (vertices @ vertices', indices @ indices') \<and>
      length vertices' = 8 * ((unat stackCount + 1) * (unat sectorCount + 1)) \<and>
      length indices' = 3 * (2 * unat sectorCount * (unat stackCount - 1)) \<and>
      (\<forall>i k1 k2. i < stackCount \<longrightarrow>
         length (index_cols sectorCount stackCount i 0 k1 k2 []) =
           3 * ((if i = 0 \<or> i = stackCount - 1 then 1 else 2) * unat sectorCount))"
proof -
  have ret: "createSphere vertices indices radius sectorCount stackCount =
      Some (vertices @ sphere_vertices radius sectorCount stackCount 0,
            indices @ index_rows sectorCount stackCount 0 [])"
    using assms(3,5) by (rule createSphere_produces)
  have verts: "length (sphere_vertices radius sectorCount stackCount 0) =
      8 * ((unat stackCount + 1) * (unat sectorCount + 1))"
    by (rule length_sphere_vertices_all)
  have rows: "\<forall>i k1 k2. i < stackCount \<longrightarrow>
      length (index_cols sectorCount stackCount i 0 k1 k2 []) =
        3 * ((if i = 0 \<or> i = stackCount - 1 then 1 else 2) * unat sectorCount)"
    by (simp add: length_index_cols row_triangles_cases [OF assms(4)])
  from ret verts length_index_rows_all rows show ?thesis
    by blast
qed

theorem createSphere_counts_witness:
  "\<exists>vertices indices. createSphere [] [] 1 3 3 = Some (vertices, indices) \<and>
     length vertices = 8 * 16 \<and> length indices = 3 * 12 \<and>
     length (index_cols 3 3 0 0 0 4 []) = 3 * 3 \<and>
     length (index_cols 3 3 1 0 4 8 []) = 3 * 6 \<and>
     length (index_cols 3 3 2 0 8 12 []) = 3 * 3"
proof -
  have "\<exists>vertices' indices'.
      createSphere [] [] 1 3 3 = Some ([] @ vertices', [] @ indices') \<and>
      length vertices' = 8 * ((unat (3 :: u32) + 1) * (unat (3 :: u32) + 1)) \<and>
      length indices' = 3 * (2 * unat (3 :: u32) * (unat (3 :: u32) - 1)) \<and>
      (\<forall>i k1 k2. i < (3 :: u32) \<longrightarrow>
         length (index_cols 3 3 i 0 k1 k2 []) =
           3 * ((if i = 0 \<or> i = 3 - 1 then 1 else 2) * unat (3 :: u32)))"
    by (rule createSphere_counts) (simp_all add: UINT_MAX_def)
  then obtain vertices indices where
    "createSphere [] [] 1 3 3 = Some (vertices, indices)"
    "length vertices = 8 * 16" "length indices = 3 * 12"
    and rows: "\<And>i k1 k2. i < (3 :: u32) \<Longrightarrow>
         length (index_cols 3 3 i 0 k1 k2 []) =
           3 * ((if i = 0 \<or> i = 3 - 1 then 1 else 2) * unat (3 :: u32))"
    by auto
  moreover have "length (index_cols 3 3 0 0 0 4 []) = 3 * 3"
    using rows [of 0 0 4] by simp
  moreover have "length (index_cols 3 3 1 0 4 8 []) = 3 * 6"
    using rows [of 1 4 8] by simp
  moreover have "length (index_cols 3 3 2 0 8 12 []) = 3 * 3"
    using rows [of 2 8 12] by simp
  ultimately show ?thesis by blast
qed

text \<open>
  The claim as stated, for all \<open>stackCount \<ge> 3\<close>, fails at \<open>stackCount = UINT_MAX\<close>: the
  counter of \<^verbatim>\<open>for (i = 0; i <= stackCount; ++i)\<close> wraps around and the loop never exits.
\<close>

theorem createSphere_counts_counterexample:
  "(0 :: real) < 1 \<and> (3 :: u32) \<le> 3 \<and> 3 \<le> UINT_MAX \<and> createSphere [] [] 1 3 UINT_MAX = None"
  by (simp add: createSphere_eq UINT_MAX_def)

text \<open>
  Claim C7, as amended. \<^verbatim>\<open>createSphere\<close> validates nothing: for every radius (zero and
  negative included) and all \<open>sectorCount\<close>, \<open>stackCount\<close> below \<open>UINT_MAX\<close> (zero included) it
  returns normally, having appended \<open>(stackCount + 1) * (sectorCount + 1)\<close> vertices and
  \<open>2 * sectorCount * (stackCount - 1)\<close> triangles (subtraction stopping at 0); with
  \<open>sectorCount = 0\<close> or \<open>stackCount \<le> 1\<close> it appends vertices and no triangle.
\<close>

theorem createSphere_no_validation:
  assumes "sectorCount < UINT_MAX" and "stackCount < UINT_MAX"
  shows "\<exists>vertices' indices'.
      createSphere vertices indices radius sectorCount stackCount =
        Some (vertices @ vertices', indices @ indices') \<and>
      length vertices' = 8 * ((unat stackCount + 1) * (unat sectorCount + 1)) \<and>
      length indices' = 3 * (2 * unat sectorCount * (unat stackCount - 1)) \<and>
      (sectorCount = 0 \<or> stackCount \<le> 1 \<longrightarrow> indices' = [])"
proof -
  have ret: "createSphere vertices indices radius sectorCount stackCount =
      Some (vertices @ sphere_vertices radius sectorCount stackCount 0,
            indices @ index_rows sectorCount stackCount 0 [])"
    using assms by (rule createSphere_produces)
  have verts: "length (sphere_vertices radius sectorCount stackCount 0) =
      8 * ((unat stackCount + 1) * (unat sectorCount + 1))"
    by (rule length_sphere_vertices_all)
  have none: "index_rows sectorCount stackCount 0 [] = []"
    if "sectorCount = 0 \<or> stackCount \<le> 1"
  proof -
    from that have "unat sectorCount = 0 \<or> unat stackCount \<le> 1"
      by (auto simp: word_le_nat_alt)
    then have "length (index_rows sectorCount stackCount 0 []) = 0"
      by (auto simp: length_index_rows_all)
    then show ?thesis by simp
  qed
  from ret verts length_index_rows_all none show ?thesis
    by blast
qed

theorem createSphere_no_validation_witness:
  "(0 :: u32) < UINT_MAX \<and> (\<exists>vertices. createSphere [] [] 0 0 0 = Some (vertices, []) \<and>
     length vertices = 8)"
  using createSphere_no_validation [of 0 0 "[]" "[]" 0] by (auto simp: UINT_MAX_def)

text \<open>
  The claim as stated fails: with \<open>sectorCount = 0\<close> the function returns four vertices and
  no triangle, and with radius \<open>- 1\<close> a full mesh; neither call reports an error.
\<close>

theorem createSphere_no_validation_counterexample:
  "createSphere [] [] 1 0 3 \<noteq> None \<and>
   length (fst (the (createSphere [] [] 1 0 3))) = 8 * 4 \<and>
   snd (the (createSphere [] [] 1 0 3)) = [] \<and>
   createSphere [] [] (- 1) 3 3 \<noteq> None \<and>
   length (fst (the (createSphere [] [] (- 1) 3 3))) = 8 * 16 \<and>
   length (snd (the (createSphere [] [] (- 1) 3 3))) = 3 * 12"
proof -
  have "length (index_rows 0 3 0 []) = 0"
    by (simp add: length_index_rows_all)
  then have "index_rows 0 3 0 [] = []"
    by simp
  then show ?thesis
    by (simp add: createSphere_eq UINT_MAX_def length_sphere_vertices_all length_index_rows_all)
qed



text \<open>
  Claim C10. For all \<open>sectorCount \<ge> 1\<close> and \<open>stackCount \<ge> 2\<close>, every index that
  \<^verbatim>\<open>createSphere\<close> emits (what it appends to the index vector, whose prior contents it
  keeps) is strictly less than \<open>(stackCount + 1) * (sectorCount + 1)\<close>, the number of
  vertices it generated. Index arithmetic is modulo \<open>2 ^ 32\<close>, which can only lower a
  value. The call returns whenever both counts are below \<open>UINT_MAX\<close>.
\<close>

theorem createSphere_indices_in_range:
  assumes "1 \<le> sectorCount" and "2 \<le> stackCount"
  shows "(sectorCount < UINT_MAX \<and> stackCount < UINT_MAX \<longrightarrow>
            createSphere vertices indices radius sectorCount stackCount \<noteq> None) \<and>
         (\<forall>vertices' indices'.
            createSphere vertices indices radius sectorCount stackCount =
              Some (vertices', indices') \<longrightarrow>
              length vertices' =
                length vertices + 8 * ((unat stackCount + 1) * (unat sectorCount + 1)) \<and>
              take (length indices) indices' = indices \<and>
              (\<forall>k\<in>set (drop (length indices) indices').
                 unat k < (unat stackCount + 1) * (unat sectorCount + 1)))"
proof -
  have "\<forall>k\<in>set (index_rows sectorCount stackCount 0 []).
      unat k < vertex_count sectorCount stackCount"
    by (rule index_rows_bound) simp
  then have bound: "\<forall>k\<in>set (index_rows sectorCount stackCount 0 []).
      unat k < (unat stackCount + 1) * (unat sectorCount + 1)"
    by (simp only: vertex_count_def)
  have verts: "length (sphere_vertices radius sectorCount stackCount 0) =
      8 * ((unat stackCount + 1) * (unat sectorCount + 1))"
    by (rule length_sphere_vertices_all)
  have app: "index_rows sectorCount stackCount 0 indices =
      indices @ index_rows sectorCount stackCount 0 []"
    using index_rows_append [of sectorCount stackCount 0 indices "[]"] by simp
  show ?thesis
  proof (cases "sectorCount = UINT_MAX \<or> stackCount = UINT_MAX")
    case True
    then show ?thesis
      by (auto simp: createSphere_eq)
  next
    case False
    then have "createSphere vertices indices radius sectorCount stackCount =
        Some (vertices @ sphere_vertices radius sectorCount stackCount 0,
              indices @ index_rows sectorCount stackCount 0 [])"
      by (simp add: createSphere_eq app)
    with bound verts show ?thesis
      by simp
  qed
qed

theorem createSphere_indices_in_range_witness:
  "(1 :: u32) \<le> 1 \<and> (2 :: u32) \<le> 2 \<and>
   createSphere [] [] 1 1 2 \<noteq> None \<and>
   length (fst (the (createSphere [] [] 1 1 2))) = 8 * 6 \<and>
   list_all (\<lambda>k. unat k < 6) (snd (the (createSphere [] [] 1 1 2))) \<and>
   snd (the (createSphere [] [] 1 1 2)) = [1, 2, 3, 2, 4, 3]"
proof -
  note w = createSphere_indices_in_range [of 1 2 "[]" "[]" 1]
  have ret: "createSphere [] [] 1 1 2 \<noteq> None"
    using w by (simp add: UINT_MAX_def)
  then obtain vertices indices where
    s: "createSphere [] [] 1 1 2 = Some (vertices, indices)"
    by auto
  with w have "length vertices = 8 * 6" and "\<forall>k\<in>set indices. unat k < 6"
    by simp_all
  moreover have "index_rows 1 2 0 [] = [1, 2, 3, 2, 4, 3]"
    by (simp add: index_rows_unfold index_cols_unfold quad_indices_def)
  then have "indices = [1, 2, 3, 2, 4, 3]"
    using s by (simp add: createSphere_eq UINT_MAX_def)
  ultimately show ?thesis
    using ret s by (simp add: list_all_iff)
qed

section \<open>The asteroid belt\<close>

lemma rand_state_0: "rand_state rand g 0 = g"
  by (simp add: rand_state_def)

lemma rand_state_Suc: "rand_state rand g (Suc k) = snd (rand (rand_state rand g k))"
  by (simp add: rand_state_def)

lemma asteroid_loop_unfold:
  "asteroid_loop rand RAND_MAX n i g ps ss =
     (if i < n
      then asteroid_loop rand RAND_MAX n (i + 1) (snd (rand (snd (rand (snd (rand g))))))
             (ps @ [(cos (real_of_int i / real_of_int n * two_pi) *
                       (5.5 + real_of_int (fst (rand g)) / real_of_int RAND_MAX * 2.5),
                     (real_of_int (fst (rand (snd (rand g)))) / real_of_int RAND_MAX - 0.5) * 0.25,
                     sin (real_of_int i / real_of_int n * two_pi) *
                       (5.5 + real_of_int (fst (rand g)) / real_of_int RAND_MAX * 2.5))])
             (ss @ [0.02 + real_of_int (fst (rand (snd (rand (snd (rand g)))))) /
                      real_of_int RAND_MAX * 0.0175])
      else (ps, ss, g))"
  by (subst asteroid_loop.simps) (simp add: Let_def)

lemma asteroid_loop_run:
  "0 \<le> i \<Longrightarrow> m = nat (n - i) \<Longrightarrow>
     asteroid_loop rand RAND_MAX n i (rand_state rand g (3 * nat i)) ps ss =
       (ps @ map (belt_position RAND_MAX n (rand_value rand g)) [nat i..<nat n],
        ss @ map (belt_scale RAND_MAX (rand_value rand g)) [nat i..<nat n],
        rand_state rand g (3 * nat (max i n)))"
proof (induction m arbitrary: i ps ss)
  case 0
  then have "\<not> i < n" and "nat n \<le> nat i" and "max i n = i"
    by linarith+
  then show ?case
    by (subst asteroid_loop_unfold) simp
next
  case (Suc m)
  from Suc.prems have lt: "i < n"
    by linarith
  with Suc.prems have nlt: "nat i < nat n" and mx: "max i n = n" "max (i + 1) n = n"
    by linarith+
  have nat1: "nat (i + 1) = Suc (nat i)"
    using Suc.prems(1) by simp
  have st: "3 * nat (i + 1) = Suc (Suc (Suc (3 * nat i)))"
    by (simp add: nat1)
  have v1: "fst (rand (rand_state rand g (3 * nat i))) = rand_value rand g (3 * nat i)"
    by (simp add: rand_value_def)
  have v2: "fst (rand (snd (rand (rand_state rand g (3 * nat i))))) =
      rand_value rand g (3 * nat i + 1)"
    by (simp add: rand_value_def rand_state_Suc)
  have v3: "fst (rand (snd (rand (snd (rand (rand_state rand g (3 * nat i))))))) =
      rand_value rand g (3 * nat i + 2)"
    by (simp add: rand_value_def rand_state_Suc)
  have g3: "snd (rand (snd (rand (snd (rand (rand_state rand g (3 * nat i))))))) =
      rand_state rand g (3 * nat (i + 1))"
    by (simp add: st rand_state_Suc)
  have ri: "real_of_int i = real (nat i)"
    using Suc.prems(1) by simp
  have upt: "[nat i..<nat n] = nat i # [nat (i + 1)..<nat n]"
    using nlt by (simp add: nat1 upt_conv_Cons)
  have ih: "asteroid_loop rand RAND_MAX n (i + 1) (rand_state rand g (3 * nat (i + 1)))
        (ps @ [belt_position RAND_MAX n (rand_value rand g) (nat i)])
        (ss @ [belt_scale RAND_MAX (rand_value rand g) (nat i)]) =
      ((ps @ [belt_position RAND_MAX n (rand_value rand g) (nat i)]) @
          map (belt_position RAND_MAX n (rand_value rand g)) [nat (i + 1)..<nat n],
       (ss @ [belt_scale RAND_MAX (rand_value rand g) (nat i)]) @
          map (belt_scale RAND_MAX (rand_value rand g)) [nat (i + 1)..<nat n],
       rand_state rand g (3 * nat (max (i + 1) n)))"
    using Suc.prems by (intro Suc.IH) simp_all
  have step: "asteroid_loop rand RAND_MAX n i (rand_state rand g (3 * nat i)) ps ss =
      asteroid_loop rand RAND_MAX n (i + 1) (rand_state rand g (3 * nat (i + 1)))
        (ps @ [belt_position RAND_MAX n (rand_value rand g) (nat i)])
        (ss @ [belt_scale RAND_MAX (rand_value rand g) (nat i)])"
    by (subst asteroid_loop_unfold)
       (simp only: lt if_True v1 v2 v3 g3 ri belt_position_def belt_scale_def)
  show ?case
    by (simp only: step ih upt mx list.map append_assoc append.simps)
qed

lemma asteroid_loop_eq:
  "asteroid_loop rand RAND_MAX n 0 g [] [] =
     (map (belt_position RAND_MAX n (rand_value rand g)) [0..<nat n],
      map (belt_scale RAND_MAX (rand_value rand g)) [0..<nat n],
      rand_state rand g (3 * nat n))"
proof -
  have "nat (max 0 n) = nat n"
    by simp
  with asteroid_loop_run [of 0 "nat n" n rand RAND_MAX g "[]" "[]"] show ?thesis
    by (simp add: rand_state_0)
qed

lemma unit_draw:
  assumes "0 < RAND_MAX" and "0 \<le> v" and "v \<le> RAND_MAX"
  shows "0 \<le> real_of_int v / real_of_int RAND_MAX" and "real_of_int v / real_of_int RAND_MAX \<le> 1"
  using assms by simp_all

lemma belt_ranges:
  fixes u :: real
  assumes "0 \<le> u" and "u \<le> 1"
  shows "5.5 \<le> 5.5 + u * 2.5" and "5.5 + u * 2.5 \<le> 8"
    and "- 0.125 \<le> (u - 0.5) * 0.25" and "(u - 0.5) * 0.25 \<le> 0.125"
    and "0.02 \<le> 0.02 + u * 0.0175" and "0.02 + u * 0.0175 \<le> 0.0375"
  using assms by simp_all

lemma rand_value_range:
  assumes "\<forall>h. 0 \<le> fst (rand h) \<and> fst (rand h) \<le> RAND_MAX"
  shows "0 \<le> rand_value rand g k" and "rand_value rand g k \<le> RAND_MAX"
  using assms by (simp_all add: rand_value_def)

lemma belt_map_cong:
  assumes "\<forall>k<3 * n. d2 k = d k"
  shows "map (belt_position RAND_MAX m d2) [0..<n] = map (belt_position RAND_MAX m d) [0..<n]"
    and "map (belt_scale RAND_MAX d2) [0..<n] = map (belt_scale RAND_MAX d) [0..<n]"
proof -
  have "d2 (3 * i) = d (3 * i) \<and> d2 (3 * i + 1) = d (3 * i + 1) \<and> d2 (3 * i + 2) = d (3 * i + 2)"
    if "i < n" for i
    using that assms by simp
  then show "map (belt_position RAND_MAX m d2) [0..<n] = map (belt_position RAND_MAX m d) [0..<n]"
    and "map (belt_scale RAND_MAX d2) [0..<n] = map (belt_scale RAND_MAX d) [0..<n]"
    by (simp_all add: belt_position_def belt_scale_def)
qed

text \<open>
  Claim C8. The asteroid loop produces exactly the requested count of instances (200 in
  \<^verbatim>\<open>main\<close>). Instance \<open>i\<close> sits at the angle \<open>(i / count) * 2\<pi>\<close>, which is not random; its
  radius, its height and its scale come from the calls \<open>3 * i\<close>, \<open>3 * i + 1\<close> and
  \<open>3 * i + 2\<close> of the random source. When \<^verbatim>\<open>rand()\<close> returns values between 0 and
  \<open>RAND_MAX\<close>, every radius lies in \<open>[5.5, 8]\<close> (inner radius 5.5, band 2.5). The lists are
  a function of the generator's outputs alone: two runs whose first \<open>3 * count\<close> outputs
  agree, as they do from the same seed, produce the same lists.
\<close>

theorem asteroid_field:
  fixes rand :: "'g \<Rightarrow> int \<times> 'g"
  assumes "0 < RAND_MAX" and "\<forall>h. 0 \<le> fst (rand h) \<and> fst (rand h) \<le> RAND_MAX"
    and "asteroid_loop rand RAND_MAX n 0 g [] [] = (positions, scales, g')"
  shows "length positions = nat n \<and> length scales = nat n \<and>
    (\<forall>i<nat n. \<exists>radius height.
        positions ! i = (cos (real i / real_of_int n * (2 * pi)) * radius, height,
                         sin (real i / real_of_int n * (2 * pi)) * radius) \<and>
        radius = 5.5 + real_of_int (rand_value rand g (3 * i)) / real_of_int RAND_MAX * 2.5 \<and>
        5.5 \<le> radius \<and> radius \<le> 8 \<and>
        height = (real_of_int (rand_value rand g (3 * i + 1)) / real_of_int RAND_MAX - 0.5) * 0.25 \<and>
        - 0.125 \<le> height \<and> height \<le> 0.125 \<and>
        scales ! i = 0.02 + real_of_int (rand_value rand g (3 * i + 2)) / real_of_int RAND_MAX * 0.0175 \<and>
        0.02 \<le> scales ! i \<and> scales ! i \<le> 0.0375) \<and>
    g' = rand_state rand g (3 * nat n) \<and>
    (\<forall>(rand2 :: 'g \<Rightarrow> int \<times> 'g) g2.
        (\<forall>k<3 * nat n. rand_value rand2 g2 k = rand_value rand g k) \<longrightarrow>
        fst (asteroid_loop rand2 RAND_MAX n 0 g2 [] []) = positions \<and>
        fst (snd (asteroid_loop rand2 RAND_MAX n 0 g2 [] [])) = scales) \<and>
    length (fst (asteroid_belt rand RAND_MAX g)) = 200 \<and>
    length (fst (snd (asteroid_belt rand RAND_MAX g))) = 200"
proof -
  let ?d = "rand_value rand g"
  from assms(3) have p: "positions = map (belt_position RAND_MAX n ?d) [0..<nat n]"
    and s: "scales = map (belt_scale RAND_MAX ?d) [0..<nat n]"
    and g': "g' = rand_state rand g (3 * nat n)"
    by (simp_all add: asteroid_loop_eq)
  have len: "length positions = nat n" "length scales = nat n"
    by (simp_all add: p s)
  have inst: "\<exists>radius height.
        positions ! i = (cos (real i / real_of_int n * (2 * pi)) * radius, height,
                         sin (real i / real_of_int n * (2 * pi)) * radius) \<and>
        radius = 5.5 + real_of_int (?d (3 * i)) / real_of_int RAND_MAX * 2.5 \<and>
        5.5 \<le> radius \<and> radius \<le> 8 \<and>
        height = (real_of_int (?d (3 * i + 1)) / real_of_int RAND_MAX - 0.5) * 0.25 \<and>
        - 0.125 \<le> height \<and> height \<le> 0.125 \<and>
        scales ! i = 0.02 + real_of_int (?d (3 * i + 2)) / real_of_int RAND_MAX * 0.0175 \<and>
        0.02 \<le> scales ! i \<and> scales ! i \<le> 0.0375"
    if "i < nat n" for i
  proof -
    let ?u1 = "real_of_int (?d (3 * i)) / real_of_int RAND_MAX"
    let ?u2 = "real_of_int (?d (3 * i + 1)) / real_of_int RAND_MAX"
    let ?u3 = "real_of_int (?d (3 * i + 2)) / real_of_int RAND_MAX"
    have u1: "0 \<le> ?u1" "?u1 \<le> 1"
      using unit_draw [OF assms(1) rand_value_range [OF assms(2), of g "3 * i"]] by simp_all
    have u2: "0 \<le> ?u2" "?u2 \<le> 1"
      using unit_draw [OF assms(1) rand_value_range [OF assms(2), of g "3 * i + 1"]] by simp_all
    have u3: "0 \<le> ?u3" "?u3 \<le> 1"
      using unit_draw [OF assms(1) rand_value_range [OF assms(2), of g "3 * i + 2"]] by simp_all
    define radius where "radius = 5.5 + ?u1 * 2.5"
    define height where "height = (?u2 - 0.5) * 0.25"
    have pos: "positions ! i = (cos (real i / real_of_int n * (2 * pi)) * radius, height,
        sin (real i / real_of_int n * (2 * pi)) * radius)"
      using that by (simp add: p belt_position_def radius_def height_def two_pi_def)
    have sc: "scales ! i = 0.02 + ?u3 * 0.0175"
      using that by (simp add: s belt_scale_def)
    have r: "5.5 \<le> radius" "radius \<le> 8"
      unfolding radius_def by (rule belt_ranges [OF u1])+
    have h: "- 0.125 \<le> height" "height \<le> 0.125"
      unfolding height_def by (rule belt_ranges [OF u2])+
    have c: "0.02 \<le> scales ! i" "scales ! i \<le> 0.0375"
      unfolding sc by (rule belt_ranges [OF u3])+
    show ?thesis
      by (intro exI [of _ radius] exI [of _ height] conjI)
         (rule pos radius_def height_def r h sc c)+
  qed
  have repro: "fst (asteroid_loop rand2 RAND_MAX n 0 g2 [] []) = positions \<and>
      fst (snd (asteroid_loop rand2 RAND_MAX n 0 g2 [] [])) = scales"
    if "\<forall>k<3 * nat n. rand_value rand2 g2 k = rand_value rand g k" for rand2 :: "'g \<Rightarrow> int \<times> 'g" and g2
    using belt_map_cong [OF that] by (simp add: asteroid_loop_eq p s)
  have belt: "length (fst (asteroid_belt rand RAND_MAX g)) = 200"
    "length (fst (snd (asteroid_belt rand RAND_MAX g))) = 200"
    by (simp_all add: asteroid_belt_def asteroidCount_def asteroid_loop_eq)
  from len inst g' repro belt show ?thesis
    by blast
qed

theorem asteroid_field_witness:
  "(0 :: int) < 99 \<and>
   length (fst (asteroid_belt (\<lambda>h. (h mod 100, h + 1)) 99 0)) = 200 \<and>
   length (fst (snd (asteroid_belt (\<lambda>h. (h mod 100, h + 1)) 99 0))) = 200 \<and>
   fst (asteroid_belt (\<lambda>h. (h mod 100, h + 1)) 99 0) ! 0 = (5.5, (1 / 99 - 0.5) * 0.25, 0) \<and>
   fst (snd (asteroid_belt (\<lambda>h. (h mod 100, h + 1)) 99 0)) ! 0 = 0.02 + 2 / 99 * 0.0175 \<and>
   snd (snd (asteroid_belt (\<lambda>h. (h mod 100, h + 1)) 99 0)) = 600"
proof -
  let ?rand = "\<lambda>h :: int. (h mod 100, h + 1)"
  let ?belt = "asteroid_belt ?rand 99 0"
  have run: "asteroid_loop ?rand 99 200 0 0 [] [] = (fst ?belt, fst (snd ?belt), snd (snd ?belt))"
    by (simp add: asteroid_belt_def asteroidCount_def)
  have "h mod 100 < 100" for h :: int
    by simp
  then have "h mod 100 \<le> 99" for h :: int
    by (simp add: zle_diff1_eq [of _ 100, simplified, symmetric] del: pos_mod_bound)
  then have rng: "\<forall>h. 0 \<le> fst (?rand h) \<and> fst (?rand h) \<le> 99"
    by simp
  have "(0 :: int) < 99"
    by simp
  note w = asteroid_field [OF this rng run]
  have st: "rand_state ?rand 0 k = int k" for k
    by (induction k) (simp_all add: rand_state_0 rand_state_Suc)
  have v: "rand_value ?rand 0 k = int k mod 100" for k
    by (simp add: rand_value_def st)
  have len: "length (fst ?belt) = 200" "length (fst (snd ?belt)) = 200"
    using w [THEN conjunct1] w [THEN conjunct2, THEN conjunct1] by simp_all
  have g': "snd (snd ?belt) = 600"
    using w [THEN conjunct2, THEN conjunct2, THEN conjunct2, THEN conjunct1]
    by (simp add: st)
  have "(0 :: nat) < nat 200"
    by simp
  note first = w [THEN conjunct2, THEN conjunct2, THEN conjunct1, rule_format, OF this]
  have "fst ?belt ! 0 = (5.5, (1 / 99 - 0.5) * 0.25, 0) \<and>
      fst (snd ?belt) ! 0 = 0.02 + 2 / 99 * 0.0175"
    using first by (elim exE conjE) (simp add: v)
  then show ?thesis
    using len g' by simp
qed

section \<open>Orbits\<close>

lemma animate_loop_unfold:
  "animate_loop currentFrame i ps =
     (if i < length ps
      then animate_loop currentFrame (i + 1)
             (ps[i := (ps ! i)\<lparr>orbitAngle := currentFrame * orbitSpeed (ps ! i)\<rparr>])
      else ps)"
  by (rule animate_loop.simps)

lemma length_animate_loop: "length (animate_loop currentFrame i ps) = length ps"
proof (induction currentFrame i ps rule: animate_loop.induct)
  case (1 currentFrame i ps)
  show ?case
  proof (cases "i < length ps")
    case True
    with "1.IH" [OF True] show ?thesis
      by (subst animate_loop_unfold) simp
  next
    case False
    then show ?thesis by (subst animate_loop_unfold) simp
  qed
qed

lemma animate_loop_nth:
  "k < length ps \<Longrightarrow>
     animate_loop currentFrame i ps ! k =
       (if i \<le> k then (ps ! k)\<lparr>orbitAngle := currentFrame * orbitSpeed (ps ! k)\<rparr>
        else ps ! k)"
proof (induction currentFrame i ps rule: animate_loop.induct)
  case (1 currentFrame i ps)
  show ?case
  proof (cases "i < length ps")
    case True
    let ?ps = "ps[i := (ps ! i)\<lparr>orbitAngle := currentFrame * orbitSpeed (ps ! i)\<rparr>]"
    have "animate_loop currentFrame (i + 1) ?ps ! k =
        (if i + 1 \<le> k then (?ps ! k)\<lparr>orbitAngle := currentFrame * orbitSpeed (?ps ! k)\<rparr>
         else ?ps ! k)"
      using "1.prems" by (intro "1.IH" [OF True]) simp
    moreover have "animate_loop currentFrame i ps = animate_loop currentFrame (i + 1) ?ps"
      using True by (subst animate_loop_unfold) simp
    ultimately show ?thesis
      using "1.prems" True by (cases "k = i") (auto simp: nth_list_update)
  next
    case False
    with "1.prems" show ?thesis
      by (subst animate_loop_unfold) simp
  qed
qed

lemma animate_Some:
  assumes "animate t s = Some s'"
  shows "5 \<le> length (planets s)"
    and "length (planets s') = length (planets s)"
    and "\<And>i. 1 \<le> i \<Longrightarrow> i < length (planets s) \<Longrightarrow>
           planets s' ! i = (planets s ! i)\<lparr>orbitAngle := t * orbitSpeed (planets s ! i)\<rparr>"
    and "planets s' ! 0 = (planets s ! 0)\<lparr>orbitAngle := 0\<rparr>"
    and "earthPos s' = orbit_offset (planets s' ! 3)"
    and "moonPos s' = vec3_add (earthPos s') (orbit_offset (planets s' ! 4))"
proof -
  from assms show len: "5 \<le> length (planets s)"
    by (simp add: animate_def split: if_splits)
  from assms len have s': "s' = \<lparr>planets = animate_loop t 1 ((planets s)[0 := (planets s ! 0)\<lparr>orbitAngle := 0\<rparr>]),
      earthPos = orbit_offset (animate_loop t 1 ((planets s)[0 := (planets s ! 0)\<lparr>orbitAngle := 0\<rparr>]) ! 3),
      moonPos = vec3_add
        (orbit_offset (animate_loop t 1 ((planets s)[0 := (planets s ! 0)\<lparr>orbitAngle := 0\<rparr>]) ! 3))
        (orbit_offset (animate_loop t 1 ((planets s)[0 := (planets s ! 0)\<lparr>orbitAngle := 0\<rparr>]) ! 4))\<rparr>"
    by (simp add: animate_def Let_def)
  show "length (planets s') = length (planets s)"
    by (simp add: s' length_animate_loop)
  show "planets s' ! i = (planets s ! i)\<lparr>orbitAngle := t * orbitSpeed (planets s ! i)\<rparr>"
    if "1 \<le> i" "i < length (planets s)" for i
    using that by (simp add: s' animate_loop_nth)
  have "0 < length (planets s)"
    using len by auto
  then show "planets s' ! 0 = (planets s ! 0)\<lparr>orbitAngle := 0\<rparr>"
    by (simp add: s' animate_loop_nth)
  show "earthPos s' = orbit_offset (planets s' ! 3)"
    by (simp add: s')
  show "moonPos s' = vec3_add (earthPos s') (orbit_offset (planets s' ! 4))"
    by (simp add: s')
qed

lemma animate_returns: "5 \<le> length (planets s) \<Longrightarrow> animate t s \<noteq> None"
  by (simp add: animate_def Let_def)

lemma orbit_positions_after:
  assumes "animate t s = Some s'" and "1 \<le> i" and "i < length (planets s)"
  shows "orbitAngle (planets s' ! i) = t * orbitSpeed (planets s ! i) \<and>
         draw_pos s' i =
           vec3_add (if i = 4 then draw_pos s' 3 else (0, 0, 0))
             (orbitRadius (planets s ! i) * cos (t * orbitSpeed (planets s ! i)), 0,
              orbitRadius (planets s ! i) * sin (t * orbitSpeed (planets s ! i))) \<and>
         (t = 0 \<longrightarrow> orbit_offset (planets s' ! i) = (orbitRadius (planets s ! i), 0, 0)) \<and>
         (orbitSpeed (planets s ! i) \<noteq> 0 \<and> t = pi / orbitSpeed (planets s ! i) \<longrightarrow>
            orbit_offset (planets s' ! i) = (- orbitRadius (planets s ! i), 0, 0))"
proof -
  note a = animate_Some [OF assms(1)]
  have p: "planets s' ! i = (planets s ! i)\<lparr>orbitAngle := t * orbitSpeed (planets s ! i)\<rparr>"
    using assms(2,3) by (rule a(3))
  have off: "orbit_offset (planets s' ! i) =
      (orbitRadius (planets s ! i) * cos (t * orbitSpeed (planets s ! i)), 0,
       orbitRadius (planets s ! i) * sin (t * orbitSpeed (planets s ! i)))"
    by (simp add: p orbit_offset_def)
  have earth: "draw_pos s' 3 = orbit_offset (planets s' ! 3)"
    by (simp add: draw_pos_def a(5))
  have "draw_pos s' i = vec3_add (if i = 4 then draw_pos s' 3 else (0, 0, 0))
      (orbit_offset (planets s' ! i))"
    using assms(2) by (simp add: draw_pos_def a(5) orbit_offset_def)
  then have pos: "draw_pos s' i = vec3_add (if i = 4 then draw_pos s' 3 else (0, 0, 0))
      (orbitRadius (planets s ! i) * cos (t * orbitSpeed (planets s ! i)), 0,
       orbitRadius (planets s ! i) * sin (t * orbitSpeed (planets s ! i)))"
    by (simp only: off)
  have zero: "orbit_offset (planets s' ! i) = (orbitRadius (planets s ! i), 0, 0)" if "t = 0"
    using that by (simp add: off)
  have half: "orbit_offset (planets s' ! i) = (- orbitRadius (planets s ! i), 0, 0)"
    if "orbitSpeed (planets s ! i) \<noteq> 0 \<and> t = pi / orbitSpeed (planets s ! i)"
    using that by (simp add: off)
  have "orbitAngle (planets s' ! i) = t * orbitSpeed (planets s ! i)"
    by (simp add: p)
  with pos zero half show ?thesis
    by blast
qed

lemma moon_position_after:
  assumes "animate t s = Some s'"
  shows "draw_pos s' 3 =
           (orbitRadius (planets s ! 3) * cos (t * orbitSpeed (planets s ! 3)), 0,
            orbitRadius (planets s ! 3) * sin (t * orbitSpeed (planets s ! 3))) \<and>
         draw_pos s' 4 =
           vec3_add (draw_pos s' 3)
             (orbitRadius (planets s ! 4) * cos (t * orbitSpeed (planets s ! 4)), 0,
              orbitRadius (planets s ! 4) * sin (t * orbitSpeed (planets s ! 4))) \<and>
         moonPos s' = draw_pos s' 4 \<and>
         follow_pos s' 4 = draw_pos s' 4 \<and>
         follow_pos s' 3 = draw_pos s' 3 \<and>
         (orbitRadius (planets s ! 3) = 0 \<and> orbitSpeed (planets s ! 3) = 0 \<longrightarrow>
            draw_pos s' 4 =
              (orbitRadius (planets s ! 4) * cos (t * orbitSpeed (planets s ! 4)), 0,
               orbitRadius (planets s ! 4) * sin (t * orbitSpeed (planets s ! 4))))"
proof -
  note a = animate_Some [OF assms]
  have p3: "planets s' ! 3 = (planets s ! 3)\<lparr>orbitAngle := t * orbitSpeed (planets s ! 3)\<rparr>"
    using a(1) by (intro a(3)) simp_all
  have p4: "planets s' ! 4 = (planets s ! 4)\<lparr>orbitAngle := t * orbitSpeed (planets s ! 4)\<rparr>"
    using a(1) by (intro a(3)) simp_all
  show ?thesis
    by (simp add: draw_pos_def follow_pos_def a(5,6) p3 p4 orbit_offset_def mult.commute)
qed

text \<open>
  Claim C2. After the frame at time \<open>t\<close>, the orbit angle of every body but the star is
  \<open>t * orbitSpeed\<close>, whatever it was before, and the body is drawn at its parent's position
  (Earth's drawn position for the Moon, the origin for every other body) plus
  \<open>(orbitRadius * cos (t * orbitSpeed), 0, orbitRadius * sin (t * orbitSpeed))\<close>. The
  parent-relative position is \<open>(R, 0, 0)\<close> at \<open>t = 0\<close> and \<open>(- R, 0, 0)\<close> at \<open>t = \<pi> / w\<close>.
\<close>

theorem orbit_positions:
  assumes "5 \<le> length (planets s)" and "1 \<le> i" and "i < length (planets s)"
  shows "\<exists>s'. animate t s = Some s' \<and>
         orbitAngle (planets s' ! i) = t * orbitSpeed (planets s ! i) \<and>
         draw_pos s' i =
           vec3_add (if i = 4 then draw_pos s' 3 else (0, 0, 0))
             (orbitRadius (planets s ! i) * cos (t * orbitSpeed (planets s ! i)), 0,
              orbitRadius (planets s ! i) * sin (t * orbitSpeed (planets s ! i))) \<and>
         (t = 0 \<longrightarrow> orbit_offset (planets s' ! i) = (orbitRadius (planets s ! i), 0, 0)) \<and>
         (orbitSpeed (planets s ! i) \<noteq> 0 \<and> t = pi / orbitSpeed (planets s ! i) \<longrightarrow>
            orbit_offset (planets s' ! i) = (- orbitRadius (planets s ! i), 0, 0))"
proof -
  from assms(1) obtain s' where s': "animate t s = Some s'"
    using animate_returns [of s t] by auto
  from orbit_positions_after [OF s' assms(2,3)] s' show ?thesis
    by blast
qed

text \<open>
  Claim C3. At every time the Moon is drawn, stored in \<^verbatim>\<open>moonPos\<close> and followed by the
  camera at Earth's current resolved position (the point on Earth's orbit at that time,
  not the origin the orbit is centred on) plus the Moon's own circular offset. With
  Earth's orbit radius and speed zero, the Moon circles the origin.
\<close>

theorem moon_position:
  assumes "5 \<le> length (planets s)"
  shows "\<exists>s'. animate t s = Some s' \<and>
         draw_pos s' 3 =
           (orbitRadius (planets s ! 3) * cos (t * orbitSpeed (planets s ! 3)), 0,
            orbitRadius (planets s ! 3) * sin (t * orbitSpeed (planets s ! 3))) \<and>
         draw_pos s' 4 =
           vec3_add (draw_pos s' 3)
             (orbitRadius (planets s ! 4) * cos (t * orbitSpeed (planets s ! 4)), 0,
              orbitRadius (planets s ! 4) * sin (t * orbitSpeed (planets s ! 4))) \<and>
         moonPos s' = draw_pos s' 4 \<and>
         follow_pos s' 4 = draw_pos s' 4 \<and>
         follow_pos s' 3 = draw_pos s' 3 \<and>
         (orbitRadius (planets s ! 3) = 0 \<and> orbitSpeed (planets s ! 3) = 0 \<longrightarrow>
            draw_pos s' 4 =
              (orbitRadius (planets s ! 4) * cos (t * orbitSpeed (planets s ! 4)), 0,
               orbitRadius (planets s ! 4) * sin (t * orbitSpeed (planets s ! 4))))"
proof -
  from assms obtain s' where s': "animate t s = Some s'"
    using animate_returns [of s t] by auto
  from moon_position_after [OF s'] s' show ?thesis
    by blast
qed

lemma length_planets_init: "length (planets_init loadTexture) = 10"
  by (simp add: planets_init_def)

lemma planets_init_earth:
  "orbitRadius (planets_init loadTexture ! 3) = 2.5"
  "orbitSpeed (planets_init loadTexture ! 3) = 1"
  by (simp_all add: planets_init_def)

lemma planets_init_moon:
  "orbitRadius (planets_init loadTexture ! 4) = 0.2"
  "orbitSpeed (planets_init loadTexture ! 4) = 12"
  by (simp_all add: planets_init_def)

theorem orbit_positions_witness:
  "animate pi (scene_init (\<lambda>path. 0)) \<noteq> None \<and>
   orbitAngle (planets (the (animate pi (scene_init (\<lambda>path. 0)))) ! 3) = pi \<and>
   draw_pos (the (animate pi (scene_init (\<lambda>path. 0)))) 3 = (- 2.5, 0, 0) \<and>
   animate 0 (scene_init (\<lambda>path. 0)) \<noteq> None \<and>
   draw_pos (the (animate 0 (scene_init (\<lambda>path. 0)))) 3 = (2.5, 0, 0) \<and>
   draw_pos (the (animate 0 (scene_init (\<lambda>path. 0)))) 4 =
     vec3_add (draw_pos (the (animate 0 (scene_init (\<lambda>path. 0)))) 3) (0.2, 0, 0)"
proof -
  let ?s = "scene_init (\<lambda>path. 0)"
  have len: "length (planets ?s) = 10"
    by (simp add: scene_init_def length_planets_init)
  have five: "5 \<le> length (planets ?s)" and three: "3 < length (planets ?s)"
    and four: "4 < length (planets ?s)"
    by (simp_all only: len)
  have e: "orbitRadius (planets ?s ! 3) = 2.5" "orbitSpeed (planets ?s ! 3) = 1"
    by (simp_all add: scene_init_def planets_init_earth)
  have m: "orbitRadius (planets ?s ! 4) = 0.2" "orbitSpeed (planets ?s ! 4) = 12"
    by (simp_all add: scene_init_def planets_init_moon)
  obtain a where a: "animate pi ?s = Some a"
    and "orbitAngle (planets a ! 3) = pi" and "draw_pos a 3 = (- 2.5, 0, 0)"
    using orbit_positions [OF five _ three, of pi] by (auto simp: e)
  moreover obtain b where b: "animate 0 ?s = Some b" and "draw_pos b 3 = (2.5, 0, 0)"
    using orbit_positions [OF five _ three, of 0] by (auto simp: e)
  moreover obtain c where c: "animate 0 ?s = Some c"
    and "draw_pos c 4 = vec3_add (draw_pos c 3) (0.2, 0, 0)"
    using orbit_positions [OF five _ four, of 0] by (auto simp: m)
  moreover from b c have "c = b"
    by simp
  ultimately show ?thesis
    by simp
qed

theorem moon_position_witness:
  "animate 0 (scene_init (\<lambda>path. 0)) \<noteq> None \<and>
   draw_pos (the (animate 0 (scene_init (\<lambda>path. 0)))) 3 = (2.5, 0, 0) \<and>
   draw_pos (the (animate 0 (scene_init (\<lambda>path. 0)))) 4 = (2.7, 0, 0) \<and>
   moonPos (the (animate 0 (scene_init (\<lambda>path. 0)))) = (2.7, 0, 0) \<and>
   follow_pos (the (animate 0 (scene_init (\<lambda>path. 0)))) 4 = (2.7, 0, 0) \<and>
   animate 0
     ((scene_init (\<lambda>path. 0))
        \<lparr>planets := (planets_init (\<lambda>path. 0))
           [3 := (planets_init (\<lambda>path. 0) ! 3)\<lparr>orbitRadius := 0, orbitSpeed := 0\<rparr>]\<rparr>) \<noteq> None \<and>
   draw_pos (the (animate 0
     ((scene_init (\<lambda>path. 0))
        \<lparr>planets := (planets_init (\<lambda>path. 0))
           [3 := (planets_init (\<lambda>path. 0) ! 3)\<lparr>orbitRadius := 0, orbitSpeed := 0\<rparr>]\<rparr>))) 4 =
     (0.2, 0, 0)"
proof -
  let ?s = "scene_init (\<lambda>path. 0)"
  let ?z = "?s\<lparr>planets := (planets_init (\<lambda>path. 0))
           [3 := (planets_init (\<lambda>path. 0) ! 3)\<lparr>orbitRadius := 0, orbitSpeed := 0\<rparr>]\<rparr>"
  have len: "length (planets ?s) = 10" "length (planets ?z) = 10"
    by (simp_all add: scene_init_def length_planets_init)
  have five: "5 \<le> length (planets ?s)" "5 \<le> length (planets ?z)"
    by (simp_all only: len)
  have e: "orbitRadius (planets ?s ! 3) = 2.5" "orbitSpeed (planets ?s ! 3) = 1"
    by (simp_all add: scene_init_def planets_init_earth)
  have m: "orbitRadius (planets ?s ! 4) = 0.2" "orbitSpeed (planets ?s ! 4) = 12"
    by (simp_all add: scene_init_def planets_init_moon)
  have ze: "orbitRadius (planets ?z ! 3) = 0" "orbitSpeed (planets ?z ! 3) = 0"
    by (simp_all add: length_planets_init)
  have zm: "orbitRadius (planets ?z ! 4) = 0.2" "orbitSpeed (planets ?z ! 4) = 12"
    by (simp_all add: planets_init_moon)
  obtain a where a: "animate 0 ?s = Some a"
    and "draw_pos a 3 = (2.5, 0, 0)" "draw_pos a 4 = (2.7, 0, 0)"
    and "moonPos a = (2.7, 0, 0)" "follow_pos a 4 = (2.7, 0, 0)"
    using moon_position [OF five(1), of 0] by (auto simp: e m)
  moreover obtain b where b: "animate 0 ?z = Some b" and "draw_pos b 4 = (0.2, 0, 0)"
    using moon_position [OF five(2), of 0] by (elim exE conjE) (simp only: ze zm, simp)
  ultimately show ?thesis
    by (simp only: a b option.sel) simp
qed

section \<open>Camera control\<close>

lemma in_interval_cases:
  assumes "in_interval lo hi v"
  obtains x where "v = Finite x" and "lo \<le> x" and "x \<le> hi"
  using assms by (cases v) simp_all

lemma fits_float_cases:
  assumes "fits_float v"
  obtains x where "v = Finite x" and "\<bar>x\<bar> \<le> FLT_MAX"
  using assms by (cases v) simp_all

lemma Zoom_ProcessMouseMovement: "Zoom (ProcessMouseMovement c xoffset yoffset) = Zoom c"
  by (simp add: ProcessMouseMovement_def Let_def)

lemma in_ranges_switch_camera: "in_ranges (switch_camera k s) = in_ranges s"
  by (simp add: switch_camera_def in_ranges_def Let_def)

lemma in_ranges_mouse_callback:
  assumes "in_ranges s" and "fits_float yposIn"
  shows "in_ranges (mouse_callback xposIn yposIn s)"
proof -
  obtain p where p: "orbitPitch s = Finite p" "- 89 \<le> p" "p \<le> 89"
    using assms(1) by (auto simp: in_ranges_def elim: in_interval_cases)
  obtain l where l: "lastY s = Finite l" "\<bar>l\<bar> \<le> FLT_MAX"
    using assms(1) by (auto simp: in_ranges_def elim: fits_float_cases)
  obtain y where y: "yposIn = Finite y" "\<bar>y\<bar> \<le> FLT_MAX"
    using assms(2) by (auto elim: fits_float_cases)
  show ?thesis
    using assms(1) p l y
    by (cases "cameraMode s"; cases "firstMouse s")
       (auto simp: mouse_callback_def in_ranges_def Let_def Zoom_ProcessMouseMovement
          overflow_def minus_ieee_def)
qed

lemma in_ranges_scroll_callback:
  assumes "in_ranges s" and "yoffset \<noteq> NaN"
  shows "in_ranges (scroll_callback xoffset yoffset s)"
proof -
  obtain d where d: "orbitDistance s = Finite d" "0.5 \<le> d" "d \<le> 30"
    using assms(1) by (auto simp: in_ranges_def elim: in_interval_cases)
  obtain z where z: "Zoom (camera s) = Finite z" "ZOOM_MIN \<le> z" "z \<le> ZOOM_MAX"
    using assms(1) by (auto simp: in_ranges_def elim: in_interval_cases)
  show ?thesis
    using assms d z
    by (cases "cameraMode s"; cases yoffset)
       (auto simp: scroll_callback_def in_ranges_def Let_def ProcessMouseScroll_def
          overflow_def minus_ieee_def ZOOM_MIN_def ZOOM_MAX_def)
qed

lemma in_ranges_handle_input: "in_ranges s \<Longrightarrow> well_formed e \<Longrightarrow> in_ranges (handle_input s e)"
  by (cases e) (simp_all add: in_ranges_switch_camera in_ranges_mouse_callback in_ranges_scroll_callback)

lemma in_ranges_run_inputs:
  "in_ranges s \<Longrightarrow> list_all well_formed inputs \<Longrightarrow> in_ranges (run_inputs s inputs)"
  unfolding run_inputs_def
  by (induction inputs arbitrary: s) (simp_all add: in_ranges_handle_input)

text \<open>
  Claim C4, as amended. From the initial state, after any sequence of cursor, scroll and
  key-sample inputs in which every vertical cursor coordinate is a number of magnitude at
  most \<open>FLT_MAX\<close> and no vertical scroll offset is NaN, \<^verbatim>\<open>orbitPitch\<close> is a number in
  \<open>[-89, 89]\<close>, \<^verbatim>\<open>orbitDistance\<close> a number in \<open>[0.5, 30]\<close> and the field of view a number in
  its clamped range, provided the camera object starts with a field of view in that
  range. Horizontal cursor coordinates and the size of the scroll offsets are
  unrestricted: an infinite scroll offset is clamped like any other.
\<close>

theorem camera_ranges:
  assumes "list_all well_formed inputs" and "in_interval ZOOM_MIN ZOOM_MAX (Zoom c)"
  shows "in_interval (- 89) 89 (orbitPitch (run_inputs (controls_init c) inputs)) \<and>
         in_interval 0.5 30 (orbitDistance (run_inputs (controls_init c) inputs)) \<and>
         in_interval ZOOM_MIN ZOOM_MAX (Zoom (camera (run_inputs (controls_init c) inputs)))"
proof -
  have "in_ranges (controls_init c)"
    using assms(2) by (simp add: in_ranges_def controls_init_def FLT_MAX_def)
  then have "in_ranges (run_inputs (controls_init c) inputs)"
    using assms(1) by (rule in_ranges_run_inputs)
  then show ?thesis
    by (simp add: in_ranges_def)
qed

theorem camera_ranges_witness:
  "list_all well_formed
     [CursorPos (Finite 0) (Finite 0),
      CursorPos (Finite 0) (Finite (- 100000000000000000000000000000000000000)),
      Scroll (Finite 0) PInf, Frame (no_keys\<lparr>KEY_W := True\<rparr>),
      Scroll (Finite 0) (Finite 10000000000000000000000000000000000000000),
      CursorPos PInf (Finite 100000000000000000000000000000000000000)] \<and>
   in_interval ZOOM_MIN ZOOM_MAX (Finite 45) \<and>
   orbitPitch (run_inputs
     (controls_init \<lparr>Yaw = Finite 0, Pitch = Finite 0, Zoom = Finite 45, MouseSensitivity = Finite 1\<rparr>)
     [CursorPos (Finite 0) (Finite 0),
      CursorPos (Finite 0) (Finite (- 100000000000000000000000000000000000000)),
      Scroll (Finite 0) PInf, Frame (no_keys\<lparr>KEY_W := True\<rparr>),
      Scroll (Finite 0) (Finite 10000000000000000000000000000000000000000),
      CursorPos PInf (Finite 100000000000000000000000000000000000000)]) = Finite 89 \<and>
   in_interval (- 89) 89 (orbitPitch (run_inputs
     (controls_init \<lparr>Yaw = Finite 0, Pitch = Finite 0, Zoom = Finite 45, MouseSensitivity = Finite 1\<rparr>)
     [CursorPos (Finite 0) (Finite 0),
      CursorPos (Finite 0) (Finite (- 100000000000000000000000000000000000000)),
      Scroll (Finite 0) PInf, Frame (no_keys\<lparr>KEY_W := True\<rparr>),
      Scroll (Finite 0) (Finite 10000000000000000000000000000000000000000),
      CursorPos PInf (Finite 100000000000000000000000000000000000000)])) \<and>
   orbitDistance (run_inputs
     (controls_init \<lparr>Yaw = Finite 0, Pitch = Finite 0, Zoom = Finite 45, MouseSensitivity = Finite 1\<rparr>)
     [CursorPos (Finite 0) (Finite 0),
      CursorPos (Finite 0) (Finite (- 100000000000000000000000000000000000000)),
      Scroll (Finite 0) PInf, Frame (no_keys\<lparr>KEY_W := True\<rparr>),
      Scroll (Finite 0) (Finite 10000000000000000000000000000000000000000),
      CursorPos PInf (Finite 100000000000000000000000000000000000000)]) = Finite 0.5 \<and>
   Zoom (camera (run_inputs
     (controls_init \<lparr>Yaw = Finite 0, Pitch = Finite 0, Zoom = Finite 45, MouseSensitivity = Finite 1\<rparr>)
     [CursorPos (Finite 0) (Finite 0),
      CursorPos (Finite 0) (Finite (- 100000000000000000000000000000000000000)),
      Scroll (Finite 0) PInf, Frame (no_keys\<lparr>KEY_W := True\<rparr>),
      Scroll (Finite 0) (Finite 10000000000000000000000000000000000000000),
      CursorPos PInf (Finite 100000000000000000000000000000000000000)])) = Finite 1"
proof -
  let ?c = "\<lparr>Yaw = Finite 0, Pitch = Finite 0, Zoom = Finite 45, MouseSensitivity = Finite 1\<rparr>"
  let ?inputs = "[CursorPos (Finite 0) (Finite 0),
      CursorPos (Finite 0) (Finite (- 100000000000000000000000000000000000000)),
      Scroll (Finite 0) PInf, Frame (no_keys\<lparr>KEY_W := True\<rparr>),
      Scroll (Finite 0) (Finite 10000000000000000000000000000000000000000),
      CursorPos PInf (Finite 100000000000000000000000000000000000000)]"
  have wf: "list_all well_formed ?inputs"
    by (simp add: FLT_MAX_def)
  have z: "in_interval ZOOM_MIN ZOOM_MAX (Zoom ?c)"
    by (simp add: ZOOM_MIN_def ZOOM_MAX_def)
  have "orbitPitch (run_inputs (controls_init ?c) ?inputs) = Finite 89"
    and "orbitDistance (run_inputs (controls_init ?c) ?inputs) = Finite 0.5"
    and "Zoom (camera (run_inputs (controls_init ?c) ?inputs)) = Finite 1"
    by (simp_all add: run_inputs_def controls_init_def mouse_callback_def scroll_callback_def
        switch_camera_def no_keys_def ProcessMouseScroll_def ProcessMouseMovement_def
        ZOOM_MIN_def ZOOM_MAX_def Let_def overflow_def minus_ieee_def FLT_MAX_def)
  with camera_ranges [OF wf z] wf z show ?thesis
    by simp
qed

text \<open>
  The claim as worded, ``however extreme'', fails: a vertical cursor coordinate beyond the
  largest \<^verbatim>\<open>float\<close>, here \<open>10\<^sup>3\<^sup>9\<close>, becomes \<open>+inf\<close>; the first such event sends the pitch to
  \<open>-inf\<close>, which is clamped to \<open>-89\<close>; at the second the offset \<^verbatim>\<open>lastY - ypos\<close> is
  \<open>inf - inf\<close>, NaN, the pitch becomes NaN, both comparisons of the clamp are false, and
  the pitch stays NaN.
\<close>

theorem camera_ranges_counterexample:
  "orbitPitch (run_inputs
     (controls_init \<lparr>Yaw = Finite 0, Pitch = Finite 0, Zoom = Finite 45, MouseSensitivity = Finite 1\<rparr>)
     [CursorPos (Finite 0) (Finite 0),
      CursorPos (Finite 0) (Finite 1000000000000000000000000000000000000000)]) = Finite (- 89) \<and>
   orbitPitch (run_inputs
     (controls_init \<lparr>Yaw = Finite 0, Pitch = Finite 0, Zoom = Finite 45, MouseSensitivity = Finite 1\<rparr>)
     [CursorPos (Finite 0) (Finite 0),
      CursorPos (Finite 0) (Finite 1000000000000000000000000000000000000000),
      CursorPos (Finite 0) (Finite 1000000000000000000000000000000000000000)]) = NaN \<and>
   \<not> in_interval (- 89) 89 (orbitPitch (run_inputs
     (controls_init \<lparr>Yaw = Finite 0, Pitch = Finite 0, Zoom = Finite 45, MouseSensitivity = Finite 1\<rparr>)
     [CursorPos (Finite 0) (Finite 0),
      CursorPos (Finite 0) (Finite 1000000000000000000000000000000000000000),
      CursorPos (Finite 0) (Finite 1000000000000000000000000000000000000000)]))"
  by (simp add: run_inputs_def controls_init_def mouse_callback_def Let_def overflow_def
      minus_ieee_def FLT_MAX_def)


lemma switch_camera_mode:
  "cameraMode (switch_camera k s) =
     (if (if (KEY_Q k \<and> \<not> qPressedLast s) \<or> (KEY_E k \<and> \<not> ePressedLast s)
          then FOLLOW_PLANET else cameraMode s) = FOLLOW_PLANET \<and> wasd k \<and> \<not> wasdPressedLast s
      then FREE
      else if (KEY_Q k \<and> \<not> qPressedLast s) \<or> (KEY_E k \<and> \<not> ePressedLast s)
           then FOLLOW_PLANET else cameraMode s)"
  unfolding wasd_def
  by (cases "KEY_Q k"; cases "qPressedLast s"; cases "KEY_E k"; cases "ePressedLast s";
      cases "KEY_W k \<or> KEY_A k \<or> KEY_S k \<or> KEY_D k"; cases "wasdPressedLast s";
      cases "cameraMode s")
     (simp_all add: switch_camera_def Let_def)



lemma switch_camera_flags:
  "qPressedLast (switch_camera k s) = KEY_Q k"
  "ePressedLast (switch_camera k s) = KEY_E k"
  "wasdPressedLast (switch_camera k s) = wasd k"
  by (simp_all add: switch_camera_def Let_def wasd_def)




lemma callbacks_keep_mode:
  "cameraMode (mouse_callback xposIn yposIn s) = cameraMode s"
  "cameraMode (scroll_callback xoffset yoffset s) = cameraMode s"
  by (cases "cameraMode s"; simp add: mouse_callback_def scroll_callback_def Let_def)+

lemma callbacks_keep_flags:
  "wasdPressedLast (mouse_callback xposIn yposIn s) = wasdPressedLast s"
  "qPressedLast (mouse_callback xposIn yposIn s) = qPressedLast s"
  "ePressedLast (mouse_callback xposIn yposIn s) = ePressedLast s"
  "wasdPressedLast (scroll_callback xoffset yoffset s) = wasdPressedLast s"
  "qPressedLast (scroll_callback xoffset yoffset s) = qPressedLast s"
  "ePressedLast (scroll_callback xoffset yoffset s) = ePressedLast s"
  by (simp_all add: mouse_callback_def scroll_callback_def Let_def)

text \<open>
  Claim C6, as amended. In follow mode an input switches to free mode exactly when it is
  a key sample in which some directional key is pressed while none of the four was
  pressed at the previous sample: the source tracks W, A, S and D as one flag,
  \<^verbatim>\<open>wasdPressed\<close>, so a directional key pressed while another is held is no edge. From
  free mode the only way back to follow mode is a key sample with a fresh press of Q or
  E. The ``last'' flags hold the previous key sample; the callbacks leave them alone.
\<close>

theorem camera_mode_transitions:
  "(cameraMode s = FOLLOW_PLANET \<longrightarrow>
      (cameraMode (handle_input s e) = FREE \<longleftrightarrow>
         (\<exists>k. e = Frame k \<and> wasd k \<and> \<not> wasdPressedLast s))) \<and>
   (cameraMode s = FREE \<and> cameraMode (handle_input s e) = FOLLOW_PLANET \<longrightarrow>
      (\<exists>k. e = Frame k \<and> ((KEY_Q k \<and> \<not> qPressedLast s) \<or> (KEY_E k \<and> \<not> ePressedLast s)))) \<and>
   wasdPressedLast (handle_input s e) = (case e of Frame k \<Rightarrow> wasd k | _ \<Rightarrow> wasdPressedLast s) \<and>
   qPressedLast (handle_input s e) = (case e of Frame k \<Rightarrow> KEY_Q k | _ \<Rightarrow> qPressedLast s) \<and>
   ePressedLast (handle_input s e) = (case e of Frame k \<Rightarrow> KEY_E k | _ \<Rightarrow> ePressedLast s)"
proof (cases e)
  case (CursorPos xposIn yposIn)
  then show ?thesis
    by (simp add: callbacks_keep_mode callbacks_keep_flags)
next
  case (Scroll xoffset yoffset)
  then show ?thesis
    by (simp add: callbacks_keep_mode callbacks_keep_flags)
next
  case (Frame k)
  have "cameraMode s = FOLLOW_PLANET \<longrightarrow>
      (cameraMode (switch_camera k s) = FREE \<longleftrightarrow> wasd k \<and> \<not> wasdPressedLast s)"
    by (simp add: switch_camera_mode)
  moreover have "cameraMode s = FREE \<and> cameraMode (switch_camera k s) = FOLLOW_PLANET \<longrightarrow>
      (KEY_Q k \<and> \<not> qPressedLast s) \<or> (KEY_E k \<and> \<not> ePressedLast s)"
    by (auto simp: switch_camera_mode split: if_splits)
  ultimately show ?thesis
    using Frame by (simp add: switch_camera_flags)
qed

theorem camera_mode_transitions_witness:
  "cameraMode (controls_init \<lparr>Yaw = Finite 0, Pitch = Finite 0, Zoom = Finite 45, MouseSensitivity = Finite 1\<rparr>) = FOLLOW_PLANET \<and>
   cameraMode (handle_input (controls_init \<lparr>Yaw = Finite 0, Pitch = Finite 0, Zoom = Finite 45, MouseSensitivity = Finite 1\<rparr>)
     (Frame (no_keys\<lparr>KEY_W := True\<rparr>))) = FREE \<and>
   cameraMode (handle_input (controls_init \<lparr>Yaw = Finite 0, Pitch = Finite 0, Zoom = Finite 45, MouseSensitivity = Finite 1\<rparr>)
     (Frame (no_keys\<lparr>KEY_E := True\<rparr>))) \<noteq> FREE \<and>
   cameraMode (handle_input
     ((controls_init \<lparr>Yaw = Finite 0, Pitch = Finite 0, Zoom = Finite 45, MouseSensitivity = Finite 1\<rparr>)\<lparr>wasdPressedLast := True\<rparr>)
     (Frame (no_keys\<lparr>KEY_W := True, KEY_A := True\<rparr>))) \<noteq> FREE \<and>
   cameraMode (handle_input (controls_init \<lparr>Yaw = Finite 0, Pitch = Finite 0, Zoom = Finite 45, MouseSensitivity = Finite 1\<rparr>)
     (CursorPos (Finite 10) (Finite 10))) \<noteq> FREE \<and>
   cameraMode (handle_input
     ((controls_init \<lparr>Yaw = Finite 0, Pitch = Finite 0, Zoom = Finite 45, MouseSensitivity = Finite 1\<rparr>)\<lparr>cameraMode := FREE\<rparr>)
     (Frame (no_keys\<lparr>KEY_Q := True\<rparr>))) = FOLLOW_PLANET \<and>
   cameraMode (run_inputs (controls_init \<lparr>Yaw = Finite 0, Pitch = Finite 0, Zoom = Finite 45, MouseSensitivity = Finite 1\<rparr>)
     [Frame (no_keys\<lparr>KEY_W := True\<rparr>), Frame no_keys, CursorPos (Finite 3) (Finite 4), Scroll (Finite 0) (Finite 1),
      Frame (no_keys\<lparr>KEY_S := True\<rparr>), Frame no_keys]) = FREE"
proof -
  let ?s = "controls_init \<lparr>Yaw = Finite 0, Pitch = Finite 0, Zoom = Finite 45, MouseSensitivity = Finite 1\<rparr>"
  have "cameraMode ?s = FOLLOW_PLANET"
    by (simp add: controls_init_def)
  moreover have "cameraMode (handle_input ?s (Frame (no_keys\<lparr>KEY_W := True\<rparr>))) = FREE"
    using camera_mode_transitions [of ?s "Frame (no_keys\<lparr>KEY_W := True\<rparr>)"]
    by (simp add: controls_init_def no_keys_def wasd_def)
  moreover have "cameraMode (handle_input ?s (Frame (no_keys\<lparr>KEY_E := True\<rparr>))) \<noteq> FREE"
    using camera_mode_transitions [of ?s "Frame (no_keys\<lparr>KEY_E := True\<rparr>)"]
    by (simp add: controls_init_def no_keys_def wasd_def)
  moreover have "cameraMode (handle_input (?s\<lparr>wasdPressedLast := True\<rparr>)
      (Frame (no_keys\<lparr>KEY_W := True, KEY_A := True\<rparr>))) \<noteq> FREE"
    using camera_mode_transitions [of "?s\<lparr>wasdPressedLast := True\<rparr>"
        "Frame (no_keys\<lparr>KEY_W := True, KEY_A := True\<rparr>)"]
    by (simp add: controls_init_def)
  moreover have "cameraMode (handle_input ?s (CursorPos (Finite 10) (Finite 10))) \<noteq> FREE"
    using camera_mode_transitions [of ?s "CursorPos (Finite 10) (Finite 10)"]
    by (simp add: controls_init_def)
  moreover have "cameraMode (handle_input (?s\<lparr>cameraMode := FREE\<rparr>)
      (Frame (no_keys\<lparr>KEY_Q := True\<rparr>))) = FOLLOW_PLANET"
    by (simp add: controls_init_def no_keys_def switch_camera_mode wasd_def)
  moreover have "cameraMode (run_inputs ?s
     [Frame (no_keys\<lparr>KEY_W := True\<rparr>), Frame no_keys, CursorPos (Finite 3) (Finite 4), Scroll (Finite 0) (Finite 1),
      Frame (no_keys\<lparr>KEY_S := True\<rparr>), Frame no_keys]) = FREE"
    by (simp add: run_inputs_def controls_init_def no_keys_def switch_camera_mode
        switch_camera_flags callbacks_keep_mode callbacks_keep_flags wasd_def)
  ultimately show ?thesis by blast
qed

text \<open>
  The claim as worded takes the edge per key (``pressed this frame, released the previous
  frame''). That fails: hold A (the mode becomes free), press Q as well (the mode is
  follow again, and A is still held), then press W as well. W is pressed in the last
  sample and was not in the one before, the mode before the last sample is follow, and
  it stays follow.
\<close>

theorem camera_mode_transitions_counterexample:
  "cameraMode (run_inputs
     (controls_init \<lparr>Yaw = Finite 0, Pitch = Finite 0, Zoom = Finite 45, MouseSensitivity = Finite 1\<rparr>)
     [Frame (no_keys\<lparr>KEY_A := True\<rparr>), Frame (no_keys\<lparr>KEY_A := True, KEY_Q := True\<rparr>)]) =
     FOLLOW_PLANET \<and>
   KEY_W (no_keys\<lparr>KEY_A := True, KEY_Q := True\<rparr>) = False \<and>
   KEY_W (no_keys\<lparr>KEY_A := True, KEY_W := True\<rparr>) = True \<and>
   cameraMode (run_inputs
     (controls_init \<lparr>Yaw = Finite 0, Pitch = Finite 0, Zoom = Finite 45, MouseSensitivity = Finite 1\<rparr>)
     [Frame (no_keys\<lparr>KEY_A := True\<rparr>), Frame (no_keys\<lparr>KEY_A := True, KEY_Q := True\<rparr>),
      Frame (no_keys\<lparr>KEY_A := True, KEY_W := True\<rparr>)]) = FOLLOW_PLANET"
  by (simp add: run_inputs_def controls_init_def no_keys_def switch_camera_def Let_def)


end
